theory Spec2Isabelle
  imports Complex_Main
begin

section \<open>JavaScript values\<close>

text \<open>
  A JavaScript Number is a double: a finite value, held as the real number it denotes, or
  one of the three non-finite values. Arithmetic on finite values rounds the exact result
  to the nearest double, ties to even, with gradual underflow and with overflow to an
  infinity, as IEEE 754 sets it. The two zeros are one value, and a zero divisor is taken as
  positive zero. The non-finite cases follow IEEE 754 as JavaScript implements it.
\<close>

datatype num = Fin real | PInf | NInf | NaN

text \<open>What an array read yields: a Number, or \<open>undefined\<close> past the end.\<close>

datatype jsval = Undefined | Num num

fun ToNumber :: "jsval \<Rightarrow> num" where
  "ToNumber Undefined = NaN"
| "ToNumber (Num n) = n"

fun isFinite :: "num \<Rightarrow> bool" where
  "isFinite (Fin _) = True"
| "isFinite _ = False"

fun Number_isFinite :: "jsval \<Rightarrow> bool" where
  "Number_isFinite Undefined = False"
| "Number_isFinite (Num n) = isFinite n"

subsection \<open>Rounding\<close>

text \<open>The nearest integer, the even one of the two when they are equally near.\<close>

definition rne :: "real \<Rightarrow> int" where
  "rne x =
     (let f = \<lfloor>x\<rfloor>; d = x - of_int f
      in if d < 1 / 2 then f else if 1 / 2 < d then f + 1 else if even f then f else f + 1)"

text \<open>
  The exponent \<open>E\<close> of the binade of \<open>a \<ge> 0\<close> in a format with exponents from \<open>lo\<close> to
  \<open>hi\<close>: the least \<open>E \<ge> lo\<close> with \<open>a < 2 ^ (E + 1)\<close>, and \<open>hi + 1\<close> when there is
  none up to \<open>hi\<close>.
\<close>

fun search :: "real \<Rightarrow> int \<Rightarrow> nat \<Rightarrow> int" where
  "search a E 0 = E"
| "search a E (Suc n) = (if a < 2 powi (E + 1) then E else search a (E + 1) n)"

definition binade :: "int \<Rightarrow> int \<Rightarrow> real \<Rightarrow> int" where
  "binade lo hi a = search a lo (nat (hi - lo + 1))"

text \<open>
  The magnitude \<open>a\<close> rounded to a multiple of the spacing \<open>2 ^ (E - p + 1)\<close> of its
  binade, for a format with \<open>p\<close> significant bits. Below \<open>2 ^ lo\<close> the spacing stays
  that of the lowest binade: the subnormal numbers.
\<close>

definition mag :: "nat \<Rightarrow> int \<Rightarrow> int \<Rightarrow> real \<Rightarrow> real" where
  "mag p lo hi a =
     (let E = binade lo hi a; q = 2 powi (E - int p + 1)
      in of_int (rne (a / q)) * q)"

definition roundTo :: "nat \<Rightarrow> int \<Rightarrow> int \<Rightarrow> real \<Rightarrow> num" where
  "roundTo p lo hi x =
     (if x = 0 then Fin 0
      else
        let y = mag p lo hi \<bar>x\<bar>
        in if 2 powi (hi + 1) \<le> y then (if 0 < x then PInf else NInf)
           else Fin (if 0 < x then y else - y))"

text \<open>The double and the single-precision number nearest to a real.\<close>

definition double :: "real \<Rightarrow> num" where
  "double x = roundTo 53 (- 1022) 1023 x"

definition float32 :: "real \<Rightarrow> num" where
  "float32 x = roundTo 24 (- 126) 127 x"

text \<open>The numbers a format with \<open>p\<close> bits and exponents from \<open>lo\<close> to \<open>hi\<close> holds.\<close>

definition isRep :: "nat \<Rightarrow> int \<Rightarrow> int \<Rightarrow> real \<Rightarrow> bool" where
  "isRep p lo hi y \<longleftrightarrow>
     (\<exists>m e. y = of_int m * 2 powi e \<and> \<bar>m\<bar> < 2 ^ p \<and> lo - int p + 1 \<le> e \<and> e \<le> hi - int p + 1)"

definition isDouble :: "real \<Rightarrow> bool" where
  "isDouble y = isRep 53 (- 1022) 1023 y"

subsection \<open>Arithmetic\<close>

fun num_neg :: "num \<Rightarrow> num" where
  "num_neg (Fin a) = Fin (- a)"
| "num_neg PInf = NInf"
| "num_neg NInf = PInf"
| "num_neg NaN = NaN"

fun num_add :: "num \<Rightarrow> num \<Rightarrow> num" where
  "num_add (Fin a) (Fin b) = double (a + b)"
| "num_add NaN _ = NaN"
| "num_add _ NaN = NaN"
| "num_add PInf NInf = NaN"
| "num_add NInf PInf = NaN"
| "num_add PInf _ = PInf"
| "num_add _ PInf = PInf"
| "num_add NInf _ = NInf"
| "num_add _ NInf = NInf"

definition num_sub :: "num \<Rightarrow> num \<Rightarrow> num" where
  "num_sub a b = num_add a (num_neg b)"

text \<open>The sign of a non-NaN number: \<open>-1\<close>, \<open>0\<close> or \<open>1\<close>.\<close>

fun num_sgn :: "num \<Rightarrow> int" where
  "num_sgn (Fin a) = (if a < 0 then - 1 else if a = 0 then 0 else 1)"
| "num_sgn PInf = 1"
| "num_sgn NInf = - 1"
| "num_sgn NaN = 0"

definition inf_of_sgn :: "int \<Rightarrow> num" where
  "inf_of_sgn s = (if s = 0 then NaN else if 0 < s then PInf else NInf)"

fun num_mul :: "num \<Rightarrow> num \<Rightarrow> num" where
  "num_mul (Fin a) (Fin b) = double (a * b)"
| "num_mul NaN _ = NaN"
| "num_mul _ NaN = NaN"
| "num_mul a b = inf_of_sgn (num_sgn a * num_sgn b)"

text \<open>Division; a zero divisor is taken as positive zero.\<close>

fun num_div :: "num \<Rightarrow> num \<Rightarrow> num" where
  "num_div (Fin a) (Fin b) = (if b = 0 then inf_of_sgn (num_sgn (Fin a)) else double (a / b))"
| "num_div NaN _ = NaN"
| "num_div _ NaN = NaN"
| "num_div (Fin a) _ = Fin 0"
| "num_div a (Fin b) = inf_of_sgn (num_sgn a * (if b < 0 then - 1 else 1))"
| "num_div _ _ = NaN"

text \<open>The comparison \<open>a < b\<close>: false as soon as one side is NaN.\<close>

fun num_less :: "num \<Rightarrow> num \<Rightarrow> bool" where
  "num_less (Fin a) (Fin b) = (a < b)"
| "num_less NaN _ = False"
| "num_less _ NaN = False"
| "num_less NInf NInf = False"
| "num_less NInf _ = True"
| "num_less _ NInf = False"
| "num_less PInf _ = False"
| "num_less _ PInf = True"

definition num_le :: "num \<Rightarrow> num \<Rightarrow> bool" where
  "num_le a b = (num_less a b \<or> (a = b \<and> a \<noteq> NaN))"

fun Math_abs :: "num \<Rightarrow> num" where
  "Math_abs (Fin a) = Fin \<bar>a\<bar>"
| "Math_abs PInf = PInf"
| "Math_abs NInf = PInf"
| "Math_abs NaN = NaN"

definition Math_max :: "num \<Rightarrow> num \<Rightarrow> num" where
  "Math_max a b = (if a = NaN \<or> b = NaN then NaN else if num_less a b then b else a)"

text \<open>\<open>Math.fround\<close>: what a value becomes when it is stored in a \<open>Float32Array\<close>.\<close>

fun Math_fround :: "num \<Rightarrow> num" where
  "Math_fround (Fin a) = float32 a"
| "Math_fround PInf = PInf"
| "Math_fround NInf = NInf"
| "Math_fround NaN = NaN"

text \<open>A loop counter or an array length as a Number; these stay far below \<open>2 ^ 53\<close>.\<close>

definition of_count :: "nat \<Rightarrow> num" where
  "of_count n = Fin (real n)"

text \<open>Reading \<open>xs[i]\<close>: \<open>undefined\<close> out of range.\<close>

definition js_nth :: "num list \<Rightarrow> nat \<Rightarrow> jsval" where
  "js_nth xs i = (if i < length xs then Num (xs ! i) else Undefined)"

definition js_at :: "jsval list \<Rightarrow> nat \<Rightarrow> jsval" where
  "js_at xs i = (if i < length xs then xs ! i else Undefined)"

subsection \<open>Strings\<close>

text \<open>\<open>toLowerCase\<close> on the ASCII letters; other characters are left as they are.\<close>

definition lower_char :: "char \<Rightarrow> char" where
  "lower_char c =
     (case map_of (zip ''ABCDEFGHIJKLMNOPQRSTUVWXYZ'' ''abcdefghijklmnopqrstuvwxyz'') c of
        None \<Rightarrow> c
      | Some l \<Rightarrow> l)"

definition toLowerCase :: "string \<Rightarrow> string" where
  "toLowerCase s = map lower_char s"

section \<open>The array container\<close>

text \<open>
  The reader object of the NetCDF library as the code uses it: a dimension table and a list
  of variables, each with a name, the names of its dimensions and its flat data.
\<close>

record variable =
  vname :: string
  vdims :: "string list"
  vdata :: "num list"

record reader =
  dimensions :: "(string \<times> nat) list"
  variables :: "variable list"

datatype error =
    LatTooShort | LonTooShort | GridRowsMismatch | GridColsMismatch | TooFewSegments
  | LatLonNotFound | LatLonDataTooShort | ElevationNotFound
  | NoDimensionInfo | DimensionsNotLatLon | BufferTooShort | DimensionOrderUnknown
  | ReaderError | TypeError

definition LAT_CANDIDATES :: "string list" where
  "LAT_CANDIDATES = [''lat'', ''latitude'', ''y'', ''nav_lat'', ''grid_latitude'']"

definition LON_CANDIDATES :: "string list" where
  "LON_CANDIDATES = [''lon'', ''longitude'', ''x'', ''nav_lon'', ''grid_longitude'']"

definition ELEVATION_CANDIDATES :: "string list" where
  "ELEVATION_CANDIDATES =
     [''elevation'', ''height'', ''depth'', ''z'', ''band1'', ''surface_height'', ''elev'']"

text \<open>\<open>parseDimensionName\<close> on a dimension given by its name.\<close>

definition parseDimensionName :: "string \<Rightarrow> string" where
  "parseDimensionName d = (if d = [] then [] else d)"

definition findVariable :: "reader \<Rightarrow> string list \<Rightarrow> variable option" where
  "findVariable rd candidates =
     (let lowerCandidates = map toLowerCase candidates
      in find (\<lambda>v. toLowerCase (vname v) \<in> set lowerCandidates) (variables rd))"

definition findElevationVariable :: "reader \<Rightarrow> string \<Rightarrow> string \<Rightarrow> variable option" where
  "findElevationVariable rd latDimName lonDimName =
     (let lowerCandidates = map toLowerCase ELEVATION_CANDIDATES
      in case find (\<lambda>v. toLowerCase (vname v) \<in> set lowerCandidates) (variables rd) of
           Some v \<Rightarrow> Some v
         | None \<Rightarrow>
             find (\<lambda>v. let dimNames = map (\<lambda>d. toLowerCase (parseDimensionName d)) (vdims v)
                        in toLowerCase latDimName \<in> set dimNames \<and>
                           toLowerCase lonDimName \<in> set dimNames)
                  (variables rd))"

text \<open>\<open>reader.getDataVariable(name)\<close>: the data of the variable of that name.\<close>

definition getDataVariable :: "reader \<Rightarrow> string \<Rightarrow> error + num list" where
  "getDataVariable rd name =
     (case find (\<lambda>v. vname v = name) (variables rd) of
        None \<Rightarrow> Inl ReaderError
      | Some v \<Rightarrow> Inr (vdata v))"

text \<open>\<open>reader.dimensions.find((d) => d.name === name)?.size || 0\<close>\<close>

definition dimSize :: "reader \<Rightarrow> string \<Rightarrow> nat" where
  "dimSize rd name = (case find (\<lambda>d. fst d = name) (dimensions rd) of None \<Rightarrow> 0 | Some d \<Rightarrow> snd d)"

text \<open>The product \<open>reduce((acc, v) => acc * (v || 1), 1)\<close> over the sizes that remain.\<close>

definition sliceSizeOf :: "(string \<times> nat) list \<Rightarrow> nat" where
  "sliceSizeOf dims = foldl (\<lambda>acc v. acc * (if v = 0 then 1 else v)) 1 (map snd dims)"

text \<open>
  The first loop: while more than two dimensions remain and the first has size 1 and is
  neither the latitude nor the longitude dimension, cut the data and drop that dimension.
  The names and sizes, two arrays of one length in the code, are a list of pairs.
\<close>

fun stripLeading ::
  "string \<Rightarrow> string \<Rightarrow> (string \<times> nat) list \<Rightarrow> num list \<Rightarrow> (string \<times> nat) list \<times> num list" where
  "stripLeading latDimName lonDimName [] data = ([], data)"
| "stripLeading latDimName lonDimName ((n, s) # rest) data =
     (if length ((n, s) # rest) > 2 \<and> s = 1 \<and> n \<noteq> latDimName \<and> n \<noteq> lonDimName
      then stripLeading latDimName lonDimName rest (take (sliceSizeOf rest) data)
      else ((n, s) # rest, data))"

text \<open>The second loop: drop trailing dimensions of size 1 while more than two remain.\<close>

function stripTrailing :: "(string \<times> nat) list \<Rightarrow> (string \<times> nat) list" where
  "stripTrailing dims =
     (if length dims > 2 \<and> snd (last dims) = 1 then stripTrailing (butlast dims) else dims)"
  by pat_completeness auto
termination
  by (relation "measure length") auto

declare stripTrailing.simps [simp del]

definition fillLatMajor :: "num list \<Rightarrow> nat \<Rightarrow> nat \<Rightarrow> jsval list list" where
  "fillLatMajor data latCount lonCount =
     map (\<lambda>j. map (\<lambda>i. js_nth data (j * lonCount + i)) [0..<lonCount]) [0..<latCount]"

definition fillLonMajor :: "num list \<Rightarrow> nat \<Rightarrow> nat \<Rightarrow> jsval list list" where
  "fillLonMajor data latCount lonCount =
     map (\<lambda>j. map (\<lambda>i. js_nth data (i * latCount + j)) [0..<lonCount]) [0..<latCount]"

text \<open>The dimensions of a variable with their declared sizes, 0 for a size not found.\<close>

definition declaredDims :: "reader \<Rightarrow> variable \<Rightarrow> (string \<times> nat) list" where
  "declaredDims rd v =
     (let dimNames = map parseDimensionName (vdims v)
      in map (\<lambda>name. (name, dimSize rd name)) dimNames)"

text \<open>The dimensions and the data that remain after the two loops.\<close>

definition remainingDims ::
  "string \<Rightarrow> string \<Rightarrow> (string \<times> nat) list \<Rightarrow> num list \<Rightarrow> (string \<times> nat) list \<times> num list" where
  "remainingDims latDimName lonDimName dims0 data0 =
     (case stripLeading latDimName lonDimName dims0 data0 of
        (dims1, data) \<Rightarrow> (stripTrailing dims1, data))"

text \<open>
  \<open>dimSizes[0] || (firstName === latDimName ? latCount : lonCount)\<close> and
  \<open>dimSizes[1] || (secondName === lonDimName ? lonCount : latCount)\<close>
\<close>

definition firstSizeOf :: "string \<Rightarrow> nat \<Rightarrow> string \<Rightarrow> nat \<Rightarrow> nat \<Rightarrow> nat" where
  "firstSizeOf firstName s1 latDimName latCount lonCount =
     (if s1 \<noteq> 0 then s1 else if firstName = latDimName then latCount else lonCount)"

definition secondSizeOf :: "string \<Rightarrow> nat \<Rightarrow> string \<Rightarrow> nat \<Rightarrow> nat \<Rightarrow> nat" where
  "secondSizeOf secondName s2 lonDimName latCount lonCount =
     (if s2 \<noteq> 0 then s2 else if secondName = lonDimName then lonCount else latCount)"

text \<open>The rest of \<open>reshapeElevationGrid\<close>, once exactly two dimensions remain.\<close>

definition orientGrid ::
  "string \<Rightarrow> nat \<Rightarrow> string \<Rightarrow> nat \<Rightarrow> num list \<Rightarrow> string \<Rightarrow> string \<Rightarrow> nat \<Rightarrow> nat
     \<Rightarrow> error + jsval list list" where
  "orientGrid firstName s1 secondName s2 data latDimName lonDimName latCount lonCount =
     (let firstSize = firstSizeOf firstName s1 latDimName latCount lonCount;
          secondSize = secondSizeOf secondName s2 lonDimName latCount lonCount;
          totalSize = firstSize * secondSize
      in if length data < totalSize then Inl BufferTooShort
         else
           let latNameLower = toLowerCase latDimName;
               lonNameLower = toLowerCase lonDimName;
               firstIsLat = (toLowerCase firstName = latNameLower \<or>
                             (firstSize = latCount \<and> secondSize = lonCount));
               firstIsLon = (toLowerCase firstName = lonNameLower \<or>
                             (firstSize = lonCount \<and> secondSize = latCount))
           in if firstIsLat \<and> secondSize = lonCount
              then Inr (fillLatMajor data latCount lonCount)
              else if firstIsLon \<and> secondSize = latCount
              then Inr (fillLonMajor data latCount lonCount)
              else Inl DimensionOrderUnknown)"

definition reshapeElevationGrid ::
  "reader \<Rightarrow> variable \<Rightarrow> string \<Rightarrow> string \<Rightarrow> nat \<Rightarrow> nat \<Rightarrow> error + jsval list list" where
  "reshapeElevationGrid rd elevationVar latDimName lonDimName latCount lonCount =
     (case getDataVariable rd (vname elevationVar) of
        Inl e \<Rightarrow> Inl e
      | Inr data0 \<Rightarrow>
          let dims0 = declaredDims rd elevationVar
          in if dims0 = [] then Inl NoDimensionInfo
             else
               (case remainingDims latDimName lonDimName dims0 data0 of
                  ([(firstName, s1), (secondName, s2)], data) \<Rightarrow>
                    orientGrid firstName s1 secondName s2 data latDimName lonDimName
                      latCount lonCount
                | _ \<Rightarrow> Inl DimensionsNotLatLon))"

text \<open>
  The resolver as the specification words it: the candidates are tried in the order of the
  list, and the first that names a variable wins.
\<close>

fun findByPriority :: "reader \<Rightarrow> string list \<Rightarrow> variable option" where
  "findByPriority rd [] = None"
| "findByPriority rd (c # cs) =
     (case find (\<lambda>v. toLowerCase (vname v) = toLowerCase c) (variables rd) of
        Some v \<Rightarrow> Some v
      | None \<Rightarrow> findByPriority rd cs)"

definition nameMatches :: "string list \<Rightarrow> variable \<Rightarrow> bool" where
  "nameMatches candidates v = (\<exists>c \<in> set candidates. toLowerCase (vname v) = toLowerCase c)"

section \<open>Meshes and the scene\<close>

type_synonym vec3 = "num \<times> num \<times> num"

definition getX :: "vec3 \<Rightarrow> num" where "getX v = fst v"
definition getY :: "vec3 \<Rightarrow> num" where "getY v = fst (snd v)"
definition getZ :: "vec3 \<Rightarrow> num" where "getZ v = snd (snd v)"

text \<open>
  A buffer geometry of the 3D library: the attribute \<open>position\<close> and the triangle index,
  each of which a geometry may lack. The normals and the texture coordinates, which every
  geometry of this program has, are left out.
\<close>

record geometry =
  attributes_position :: "vec3 list option"
  index :: "nat list option"

text \<open>The vertices of a geometry, none when the attribute is missing.\<close>

definition positions :: "geometry \<Rightarrow> vec3 list" where
  "positions g = (case attributes_position g of None \<Rightarrow> [] | Some ps \<Rightarrow> ps)"

record mesh =
  geometry :: geometry
  position :: vec3

record box3 =
  bmin :: vec3
  bmax :: vec3

text \<open>The vertex buffers are \<open>Float32Array\<close>s: every coordinate stored is rounded to single precision.\<close>

definition Float32BufferAttribute :: "vec3 list \<Rightarrow> vec3 list" where
  "Float32BufferAttribute vs =
     map (\<lambda>v. (Math_fround (getX v), Math_fround (getY v), Math_fround (getZ v))) vs"

text \<open>
  The plane of the 3D library: \<open>(widthSegments + 1) * (heightSegments + 1)\<close> vertices in
  rows, centred on the origin, with height 0, and two triangles for each cell.
\<close>

definition PlaneGeometry :: "num \<Rightarrow> num \<Rightarrow> nat \<Rightarrow> nat \<Rightarrow> geometry" where
  "PlaneGeometry width height widthSegments heightSegments =
     (let width_half = num_div width (Fin 2);
          height_half = num_div height (Fin 2);
          gridX = widthSegments;
          gridY = heightSegments;
          gridX1 = gridX + 1;
          gridY1 = gridY + 1;
          segment_width = num_div width (of_count gridX);
          segment_height = num_div height (of_count gridY)
      in \<lparr> attributes_position = Some (Float32BufferAttribute
             (concat (map (\<lambda>iy. map (\<lambda>ix.
                 (num_sub (num_mul (of_count ix) segment_width) width_half,
                  num_neg (num_sub (num_mul (of_count iy) segment_height) height_half),
                  Fin 0)) [0..<gridX1]) [0..<gridY1]))),
           index = Some
             (concat (map (\<lambda>iy. concat (map (\<lambda>ix.
                 (let a = ix + gridX1 * iy;
                      b = ix + gridX1 * (iy + 1);
                      c = (ix + 1) + gridX1 * (iy + 1);
                      d = (ix + 1) + gridX1 * iy
                  in [a, b, d, b, c, d])) [0..<gridX])) [0..<gridY])) \<rparr>)"

text \<open>
  The box of the 3D library with one segment a side: six faces of four vertices each,
  centred on the origin, \<open>width\<close> along x, \<open>height\<close> along y and \<open>depth\<close> along z. The
  fifth face is the one that looks up the z axis.
\<close>

datatype axis = AxisX | AxisY | AxisZ

fun setAxis :: "axis \<Rightarrow> num \<Rightarrow> vec3 \<Rightarrow> vec3" where
  "setAxis AxisX a (vx, vy, vz) = (a, vy, vz)"
| "setAxis AxisY a (vx, vy, vz) = (vx, a, vz)"
| "setAxis AxisZ a (vx, vy, vz) = (vx, vy, a)"

definition buildPlane ::
  "axis \<Rightarrow> axis \<Rightarrow> axis \<Rightarrow> num \<Rightarrow> num \<Rightarrow> num \<Rightarrow> num \<Rightarrow> num \<Rightarrow> nat \<Rightarrow> vec3 list \<times> nat list" where
  "buildPlane u v w udir vdir width height depth numberOfVertices =
     (let segmentWidth = num_div width (of_count 1);
          segmentHeight = num_div height (of_count 1);
          widthHalf = num_div width (Fin 2);
          heightHalf = num_div height (Fin 2);
          depthHalf = num_div depth (Fin 2);
          n = numberOfVertices
      in (concat (map (\<lambda>iy. map (\<lambda>ix.
              (let y = num_sub (num_mul (of_count iy) segmentHeight) heightHalf;
                   x = num_sub (num_mul (of_count ix) segmentWidth) widthHalf
               in setAxis w depthHalf
                    (setAxis v (num_mul y vdir)
                       (setAxis u (num_mul x udir) (Fin 0, Fin 0, Fin 0))))) [0..<2]) [0..<2]),
          [n, n + 2, n + 1, n + 2, n + 3, n + 1]))"

definition BoxGeometry :: "num \<Rightarrow> num \<Rightarrow> num \<Rightarrow> geometry" where
  "BoxGeometry width height depth =
     (let faces =
            [buildPlane AxisZ AxisY AxisX (Fin (- 1)) (Fin (- 1)) depth height width 0,
             buildPlane AxisZ AxisY AxisX (Fin 1) (Fin (- 1)) depth height (num_neg width) 4,
             buildPlane AxisX AxisZ AxisY (Fin 1) (Fin 1) width depth height 8,
             buildPlane AxisX AxisZ AxisY (Fin 1) (Fin (- 1)) width depth (num_neg height) 12,
             buildPlane AxisX AxisY AxisZ (Fin 1) (Fin (- 1)) width height depth 16,
             buildPlane AxisX AxisY AxisZ (Fin (- 1)) (Fin (- 1)) width height (num_neg depth) 20]
      in \<lparr> attributes_position = Some (Float32BufferAttribute (concat (map fst faces))),
           index = Some (concat (map snd faces)) \<rparr>)"

text \<open>The methods of a box: empty when a maximum is below its minimum.\<close>

definition isEmpty :: "box3 \<Rightarrow> bool" where
  "isEmpty b = (num_less (getX (bmax b)) (getX (bmin b)) \<or>
                num_less (getY (bmax b)) (getY (bmin b)) \<or>
                num_less (getZ (bmax b)) (getZ (bmin b)))"

definition getSize :: "box3 \<Rightarrow> vec3" where
  "getSize b = (if isEmpty b then (Fin 0, Fin 0, Fin 0)
                else (num_sub (getX (bmax b)) (getX (bmin b)),
                      num_sub (getY (bmax b)) (getY (bmin b)),
                      num_sub (getZ (bmax b)) (getZ (bmin b))))"

definition getCenter :: "box3 \<Rightarrow> vec3" where
  "getCenter b = (if isEmpty b then (Fin 0, Fin 0, Fin 0)
                  else (num_mul (num_add (getX (bmin b)) (getX (bmax b))) (Fin (1/2)),
                        num_mul (num_add (getY (bmin b)) (getY (bmax b))) (Fin (1/2)),
                        num_mul (num_add (getZ (bmin b)) (getZ (bmax b))) (Fin (1/2))))"

text \<open>
  The two bounding-box computations of the 3D library are parameters of the model: the box
  of a geometry's vertices, and the world-space box of the terrain group, which depends on
  the group's scale and on the mesh it holds.
\<close>

record three =
  computeBoundingBox :: "geometry \<Rightarrow> box3"
  setFromObject :: "vec3 \<Rightarrow> mesh option \<Rightarrow> box3"

text \<open>What the page's controls hold when read: \<open>None\<close> when the elements are missing.\<close>

record controls =
  scaleXField :: "num option"
  scaleYField :: "num option"
  scaleZField :: "num option"
  thicknessField :: "num option"

record summaryInfo =
  sumLat :: "num list"
  sumLon :: "num list"
  sumMinElev :: num
  sumMaxElev :: num
  sumSourceLabel :: string

datatype status = Idle | Parsing string | Loaded string | LoadError error

text \<open>
  The module's variables. The terrain group holds the terrain mesh and nothing else, so
  \<open>terrainMesh\<close> stands for the group's child as well. The status line, the summary and
  the download button are what the page shows; the camera is left out. Arrays are lists,
  so the tests \<open>Array.isArray\<close> of the code always pass.
\<close>

record scene =
  terrainMesh :: "mesh option"
  baseMesh :: "mesh option"
  terrainGroupScale :: vec3
  currentDownloadBaseName :: string
  currentSourceLabel :: string
  currentBaseThickness :: num
  downloadDisabled :: bool
  summary :: "summaryInfo option"
  loadStatus :: status

record options =
  fileNameBase :: string
  sourceLabel :: string

definition getScaleValue :: "num option \<Rightarrow> num" where
  "getScaleValue field =
     (case field of None \<Rightarrow> Fin 1 | Some v \<Rightarrow> if isFinite v then v else Fin 1)"

definition getBaseThicknessValue :: "controls \<Rightarrow> scene \<Rightarrow> num" where
  "getBaseThicknessValue ui s =
     (case thicknessField ui of
        None \<Rightarrow> currentBaseThickness s
      | Some v \<Rightarrow> if isFinite v then v else currentBaseThickness s)"

definition clearModel :: "scene \<Rightarrow> scene" where
  "clearModel s =
     s\<lparr> terrainMesh := None, baseMesh := None,
        terrainGroupScale := (Fin 1, Fin 1, Fin 1),
        downloadDisabled := True, summary := None \<rparr>"

definition rebuildBase :: "three \<Rightarrow> num \<Rightarrow> scene \<Rightarrow> scene" where
  "rebuildBase env thickness s =
     (if terrainMesh s = None \<or> \<not> isFinite thickness \<or> num_le thickness (Fin 0)
      then s\<lparr> baseMesh := None \<rparr>
      else
        let bbox = setFromObject env (terrainGroupScale s) (terrainMesh s)
        in if \<not> isFinite (getX (bmin bbox)) \<or> \<not> isFinite (getY (bmin bbox)) \<or>
              \<not> isFinite (getZ (bmin bbox))
           then s
           else
             let size = getSize bbox;
                 center = getCenter bbox;
                 width = Math_max (getX size) (double (1/1000000));
                 depth = Math_max (getY size) (double (1/1000000));
                 topZ = getZ (bmin bbox)
             in s\<lparr> baseMesh := Some \<lparr> geometry = BoxGeometry width depth thickness,
                      position = (getX center, getY center,
                                  num_sub topZ (num_div thickness (Fin 2))) \<rparr> \<rparr>)"

text \<open>
  The handlers of the scale and thickness controls, \<open>applyScale\<close> for one axis and
  \<open>applyThickness\<close>, on the value read from the control.
\<close>

definition applyScale :: "three \<Rightarrow> controls \<Rightarrow> axis \<Rightarrow> num \<Rightarrow> scene \<Rightarrow> scene" where
  "applyScale env ui a v s =
     (if \<not> isFinite v then s
      else
        let s1 = s\<lparr> terrainGroupScale := setAxis a v (terrainGroupScale s) \<rparr>;
            s2 = s1\<lparr> currentBaseThickness := getBaseThicknessValue ui s1 \<rparr>
        in rebuildBase env (currentBaseThickness s2) s2)"

definition applyThickness :: "three \<Rightarrow> num \<Rightarrow> scene \<Rightarrow> scene" where
  "applyThickness env thickness s =
     (if \<not> isFinite thickness \<or> num_le thickness (Fin 0) then s
      else rebuildBase env thickness (s\<lparr> currentBaseThickness := thickness \<rparr>))"

section \<open>The terrain builder\<close>

definition minMaxStep :: "num \<Rightarrow> num \<times> num \<Rightarrow> num \<times> num" where
  "minMaxStep v acc =
     (case acc of (mn, mx) \<Rightarrow>
        (if num_less v mn then v else mn, if num_less mx v then v else mx))"

definition arrayMinMax :: "num list \<Rightarrow> num \<times> num" where
  "arrayMinMax vals =
     (case fold (\<lambda>v acc. if \<not> isFinite v then acc else minMaxStep v acc) vals (PInf, NInf) of
        (mn, mx) \<Rightarrow> (if mn = PInf then NaN else mn, if mx = NInf then NaN else mx))"

text \<open>The scan for the lowest and highest elevation: entries that are not finite are skipped.\<close>

definition elevStep :: "jsval \<Rightarrow> num \<times> num \<Rightarrow> num \<times> num" where
  "elevStep v acc = (if \<not> Number_isFinite v then acc else minMaxStep (ToNumber v) acc)"

definition elevScan :: "jsval list list \<Rightarrow> nat \<Rightarrow> num \<times> num" where
  "elevScan elevationGrid lonLength =
     fold (\<lambda>row acc. fold (\<lambda>colIndex. elevStep (js_at row colIndex)) [0..<lonLength] acc)
       elevationGrid (PInf, NInf)"

definition elevMinMax :: "jsval list list \<Rightarrow> nat \<Rightarrow> num \<times> num" where
  "elevMinMax elevationGrid lonLength =
     (case elevScan elevationGrid lonLength of
        (mn, mx) \<Rightarrow> (if mn = PInf then Fin 0 else mn, if mx = NInf then Fin 0 else mx))"

definition validateGrid :: "num list \<Rightarrow> num list \<Rightarrow> jsval list list \<Rightarrow> error option" where
  "validateGrid lat lon elevationGrid =
     (if length lat < 2 then Some LatTooShort
      else if length lon < 2 then Some LonTooShort
      else if length elevationGrid \<noteq> length lat then Some GridRowsMismatch
      else if \<exists>row \<in> set elevationGrid. length row \<noteq> length lon then Some GridColsMismatch
      else None)"

text \<open>The height of vertex \<open>i\<close>; reading a row that does not exist raises.\<close>

definition vertexZ :: "jsval list list \<Rightarrow> nat \<Rightarrow> num \<Rightarrow> num \<Rightarrow> nat \<Rightarrow> error + num" where
  "vertexZ elevationGrid widthSegments minElev zScaleBase i =
     (let ix = i mod (widthSegments + 1);
          iy = i div (widthSegments + 1)
      in if iy < length elevationGrid
         then Inr (num_mul (num_sub (ToNumber (js_at (elevationGrid ! iy) ix)) minElev) zScaleBase)
         else Inl TypeError)"

fun sequenceE :: "(error + 'a) list \<Rightarrow> error + 'a list" where
  "sequenceE [] = Inr []"
| "sequenceE (Inl e # rs) = Inl e"
| "sequenceE (Inr x # rs) = (case sequenceE rs of Inl e \<Rightarrow> Inl e | Inr xs \<Rightarrow> Inr (x # xs))"

text \<open>\<open>positions.setZ(i, z)\<close> for every vertex: the height is stored in single precision.\<close>

definition setZs :: "vec3 list \<Rightarrow> num list \<Rightarrow> vec3 list" where
  "setZs ps zs = map (\<lambda>(p, h). (getX p, getY p, Math_fround h)) (zip ps zs)"

text \<open>\<open>makeSafeFilename\<close>: three replacements after lowering the case.\<close>

definition safeChar :: "char \<Rightarrow> bool" where
  "safeChar c = (c \<in> set ''abcdefghijklmnopqrstuvwxyz0123456789_-'')"

fun replaceRuns :: "(char \<Rightarrow> bool) \<Rightarrow> bool \<Rightarrow> string \<Rightarrow> string" where
  "replaceRuns bad inRun [] = []"
| "replaceRuns bad inRun (c # cs) =
     (if bad c then (if inRun then replaceRuns bad True cs
                     else CHR ''_'' # replaceRuns bad True cs)
      else c # replaceRuns bad False cs)"

definition makeSafeFilename :: "string \<Rightarrow> string" where
  "makeSafeFilename name =
     (if name = [] then ''terrain''
      else
        let s1 = replaceRuns (\<lambda>c. \<not> safeChar c) False (toLowerCase name);
            s2 = replaceRuns (\<lambda>c. c = CHR ''_'') False s1;
            s3 = dropWhile (\<lambda>c. c = CHR ''_'') s2;
            safe = rev (dropWhile (\<lambda>c. c = CHR ''_'') (rev s3))
        in if safe = [] then ''terrain'' else safe)"

text \<open>
  \<open>buildTerrainFromGrid\<close>: the error raised, if any, and the scene it leaves. The four
  checks come before \<open>clearModel\<close>; an error after it leaves the cleared scene. The
  literals \<open>0.3\<close> and \<open>1e-6\<close> are the doubles nearest to these decimals.
\<close>

definition buildTerrainFromGrid ::
  "three \<Rightarrow> controls \<Rightarrow> num list \<Rightarrow> num list \<Rightarrow> jsval list list \<Rightarrow> options \<Rightarrow> scene
     \<Rightarrow> error option \<times> scene" where
  "buildTerrainFromGrid env ui lat lon elevationGrid opts s =
     (case validateGrid lat lon elevationGrid of
        Some e \<Rightarrow> (Some e, s)
      | None \<Rightarrow>
          let lonLength = length lon;
              s1 = clearModel s;
              latStats = arrayMinMax lat;
              lonStats = arrayMinMax lon;
              latSpan = Math_max (Math_abs (num_sub (snd latStats) (fst latStats))) (double (1/1000000));
              lonSpan = Math_max (Math_abs (num_sub (snd lonStats) (fst lonStats))) (double (1/1000000));
              widthSegments = length lon - 1;
              heightSegments = length lat - 1
          in if int (length lon) - 1 \<le> 0 \<or> int (length lat) - 1 \<le> 0
             then (Some TooFewSegments, s1)
             else
               let plane = PlaneGeometry lonSpan latSpan widthSegments heightSegments;
                   vertexCount = length (positions plane);
                   minElev = fst (elevMinMax elevationGrid lonLength);
                   maxElev = snd (elevMinMax elevationGrid lonLength);
                   elevRange = Math_max (num_sub maxElev minElev) (double (1/1000000));
                   zScaleBase = num_div (double (3/10)) elevRange
               in case sequenceE (map (vertexZ elevationGrid widthSegments minElev zScaleBase)
                                     [0..<vertexCount]) of
                    Inl e \<Rightarrow> (Some e, s1)
                  | Inr zs \<Rightarrow>
                      let geom = plane\<lparr> attributes_position := Some (setZs (positions plane) zs) \<rparr>;
                          bbox = computeBoundingBox env geom;
                          offsetX = num_div (num_add (getX (bmin bbox)) (getX (bmax bbox))) (Fin 2);
                          offsetY = num_div (num_add (getY (bmin bbox)) (getY (bmax bbox))) (Fin 2);
                          offsetZ = getZ (bmin bbox);
                          s2 = s1\<lparr> terrainMesh :=
                                     Some \<lparr> geometry = geom,
                                            position = (num_neg offsetX, num_neg offsetY,
                                                        num_neg offsetZ) \<rparr>,
                                   terrainGroupScale :=
                                     (getScaleValue (scaleXField ui), getScaleValue (scaleYField ui),
                                      getScaleValue (scaleZField ui)),
                                   currentDownloadBaseName :=
                                     (if fileNameBase opts \<noteq> []
                                      then makeSafeFilename (fileNameBase opts) else ''terrain''),
                                   currentSourceLabel := sourceLabel opts \<rparr>;
                          thicknessValue = getBaseThicknessValue ui s2;
                          s3 = rebuildBase env thicknessValue
                                 (s2\<lparr> currentBaseThickness := thicknessValue \<rparr>)
                      in (None,
                          s3\<lparr> summary := Some \<lparr> sumLat = lat, sumLon = lon, sumMinElev = minElev,
                                                 sumMaxElev = maxElev,
                                                 sumSourceLabel = currentSourceLabel s3 \<rparr>,
                              downloadDisabled := False \<rparr>))"

section \<open>Resolving a NetCDF file\<close>

record ncFile =
  fileName :: string
  content :: "reader option"

record dataset =
  dsLat :: "num list"
  dsLon :: "num list"
  dsElevation :: "jsval list list"
  fileBaseName :: string

text \<open>\<open>(v.dimensions && v.dimensions[0]) || v.name\<close>\<close>

definition firstDimOrName :: "variable \<Rightarrow> string" where
  "firstDimOrName v = (case vdims v of [] \<Rightarrow> vname v | d # ds \<Rightarrow> if d = [] then vname v else d)"

text \<open>\<open>dimensionMap.get(name) || n\<close>, in a map where the last of two equal names wins.\<close>

definition countOr :: "reader \<Rightarrow> string \<Rightarrow> nat \<Rightarrow> nat" where
  "countOr rd name n =
     (case map_of (rev (dimensions rd)) name of
        None \<Rightarrow> n
      | Some k \<Rightarrow> if k = 0 then n else k)"

text \<open>\<open>file.name.replace(/\.nc$/i, "") || "terrain"\<close>\<close>

definition baseNameOf :: "string \<Rightarrow> string" where
  "baseNameOf name =
     (let n = length name;
          stem = (if 3 \<le> n \<and> toLowerCase (drop (n - 3) name) = ''.nc''
                  then take (n - 3) name else name)
      in if stem = [] then ''terrain'' else stem)"

text \<open>
  \<open>parseNetCDF\<close>. A file the library cannot read has no content, and the constructor
  raises.
\<close>

definition parseNetCDF :: "ncFile \<Rightarrow> error + dataset" where
  "parseNetCDF file =
     (case content file of
        None \<Rightarrow> Inl ReaderError
      | Some rd \<Rightarrow>
         (case findVariable rd LAT_CANDIDATES of
            None \<Rightarrow> Inl LatLonNotFound
          | Some latVar \<Rightarrow>
             (case findVariable rd LON_CANDIDATES of
                None \<Rightarrow> Inl LatLonNotFound
              | Some lonVar \<Rightarrow>
                 (case getDataVariable rd (vname latVar) of
                    Inl e \<Rightarrow> Inl e
                  | Inr latData \<Rightarrow>
                     (case getDataVariable rd (vname lonVar) of
                        Inl e \<Rightarrow> Inl e
                      | Inr lonData \<Rightarrow>
                          if length latData < 2 \<or> length lonData < 2 then Inl LatLonDataTooShort
                          else
                            let latDimName = parseDimensionName (firstDimOrName latVar);
                                lonDimName = parseDimensionName (firstDimOrName lonVar);
                                latCount = countOr rd latDimName (length latData);
                                lonCount = countOr rd lonDimName (length lonData)
                            in case findElevationVariable rd latDimName lonDimName of
                                 None \<Rightarrow> Inl ElevationNotFound
                               | Some elevVar \<Rightarrow>
                                  (case reshapeElevationGrid rd elevVar latDimName lonDimName
                                          latCount lonCount of
                                     Inl e \<Rightarrow> Inl e
                                   | Inr grid \<Rightarrow>
                                      (case grid of
                                         [] \<Rightarrow> Inl TypeError
                                       | row0 # rows \<Rightarrow>
                                           Inr \<lparr> dsLat = take (length grid) latData,
                                                 dsLon = take (length row0) lonData,
                                                 dsElevation = grid,
                                                 fileBaseName = baseNameOf (fileName file) \<rparr>)))))))"

definition loadNcFile :: "three \<Rightarrow> controls \<Rightarrow> ncFile \<Rightarrow> scene \<Rightarrow> scene" where
  "loadNcFile env ui file s =
     (let s0 = s\<lparr> loadStatus := Parsing (fileName file) \<rparr>
      in case parseNetCDF file of
           Inl e \<Rightarrow> s0\<lparr> loadStatus := LoadError e \<rparr>
         | Inr ds \<Rightarrow>
            (case buildTerrainFromGrid env ui (dsLat ds) (dsLon ds) (dsElevation ds)
                    \<lparr> fileNameBase = fileBaseName ds, sourceLabel = fileName file \<rparr> s0 of
               (Some e, s1) \<Rightarrow> s1\<lparr> loadStatus := LoadError e \<rparr>
             | (None, s1) \<Rightarrow> s1\<lparr> loadStatus := Loaded (fileName file) \<rparr>))"

section \<open>The export\<close>















section \<open>Notions used in the properties\<close>

text \<open>The heights of the terrain's vertices, in vertex order.\<close>

definition heightsOf :: "scene \<Rightarrow> num list" where
  "heightsOf s =
     (case terrainMesh s of None \<Rightarrow> [] | Some m \<Rightarrow> map getZ (positions (geometry m)))"

text \<open>The height the builder stores for the vertex of row \<open>iy\<close> and column \<open>ix\<close>.\<close>

definition heightAt :: "jsval list list \<Rightarrow> nat \<Rightarrow> nat \<Rightarrow> nat \<Rightarrow> num" where
  "heightAt elevationGrid lonLength iy ix =
     (let minElev = fst (elevMinMax elevationGrid lonLength);
          maxElev = snd (elevMinMax elevationGrid lonLength);
          elevRange = Math_max (num_sub maxElev minElev) (double (1/1000000))
      in Math_fround
           (num_mul (num_sub (ToNumber (js_at (elevationGrid ! iy) ix)) minElev)
              (num_div (double (3/10)) elevRange)))"

definition finOf :: "jsval \<Rightarrow> real" where
  "finOf v = (case v of Num (Fin r) \<Rightarrow> r | _ \<Rightarrow> 0)"

text \<open>The least and the greatest of a list of numbers.\<close>

definition isMinOf :: "num \<Rightarrow> num list \<Rightarrow> bool" where
  "isMinOf m hs = (m \<in> set hs \<and> (\<forall>h \<in> set hs. num_le m h))"

definition isMaxOf :: "num \<Rightarrow> num list \<Rightarrow> bool" where
  "isMaxOf m hs = (m \<in> set hs \<and> (\<forall>h \<in> set hs. num_le h m))"

text \<open>A base plate exists only under a terrain.\<close>

definition sceneInvariant :: "scene \<Rightarrow> bool" where
  "sceneInvariant s = (terrainMesh s = None \<longrightarrow> baseMesh s = None)"

text \<open>A geometry that has vertices and an index, neither of them empty.\<close>

definition hasBuffers :: "geometry \<Rightarrow> bool" where
  "hasBuffers g =
     (case (attributes_position g, index g) of
        (Some ps, Some idx) \<Rightarrow> ps \<noteq> [] \<and> idx \<noteq> []
      | _ \<Rightarrow> False)"

definition meshesHaveBuffers :: "scene \<Rightarrow> bool" where
  "meshesHaveBuffers s =
     ((case terrainMesh s of None \<Rightarrow> True | Some m \<Rightarrow> hasBuffers (geometry m)) \<and>
      (case baseMesh s of None \<Rightarrow> True | Some m \<Rightarrow> hasBuffers (geometry m)))"


text \<open>The scene when the page is loaded.\<close>

definition startScene :: scene where
  "startScene =
     \<lparr> terrainMesh = None, baseMesh = None, terrainGroupScale = (Fin 1, Fin 1, Fin 1),
       currentDownloadBaseName = ''terrain'', currentSourceLabel = [],
       currentBaseThickness = Fin 5, downloadDisabled = True, summary = None,
       loadStatus = Idle \<rparr>"

text \<open>
  The scenes the handlers of the page can produce from there: a file is loaded, the sample
  is loaded, which is a call of \<open>buildTerrainFromGrid\<close> and a new status line, or a scale
  or the thickness is changed. The controls may hold anything at each step.
\<close>

inductive reachable :: "three \<Rightarrow> scene \<Rightarrow> bool" for env :: three where
  reach_start: "reachable env startScene"
| reach_load: "reachable env s \<Longrightarrow> reachable env (loadNcFile env ui file s)"
| reach_build: "reachable env s \<Longrightarrow>
     reachable env (snd (buildTerrainFromGrid env ui lat lon g opts s))"
| reach_status: "reachable env s \<Longrightarrow> reachable env (s\<lparr> loadStatus := st \<rparr>)"
| reach_scale: "reachable env s \<Longrightarrow> reachable env (applyScale env ui a v s)"
| reach_thickness: "reachable env s \<Longrightarrow> reachable env (applyThickness env t s)"

subsection \<open>Example data\<close>

text \<open>A 3D library that answers every request for a bounding box with a given box.\<close>

definition fixedBoxes :: "box3 \<Rightarrow> box3 \<Rightarrow> three" where
  "fixedBoxes gb wb = \<lparr> computeBoundingBox = (\<lambda>g. gb), setFromObject = (\<lambda>groupScale m. wb) \<rparr>"

definition noControls :: controls where
  "noControls = \<lparr> scaleXField = None, scaleYField = None, scaleZField = None,
                  thicknessField = None \<rparr>"

definition sampleOptions :: options where
  "sampleOptions = \<lparr> fileNameBase = ''sample_terrain'', sourceLabel = ''sample'' \<rparr>"

definition exLat :: "num list" where "exLat = [Fin 0, Fin 1]"
definition exLon :: "num list" where "exLon = [Fin 0, Fin 1]"

definition exGrid :: "jsval list list" where
  "exGrid = [[Num (Fin 0), Num (Fin 10)], [Num (Fin 10), Num (Fin 0)]]"


text \<open>The box of the terrain built from \<open>exGrid\<close>, and the library that answers with it.\<close>

definition exBox :: box3 where
  "exBox = \<lparr> bmin = (Fin (- (1/2)), Fin (- (1/2)), Fin 0),
             bmax = (Fin (1/2), Fin (1/2), Fin (10066330 / 33554432)) \<rparr>"

definition exThree :: three where
  "exThree = fixedBoxes exBox exBox"

definition exScene :: scene where
  "exScene = snd (buildTerrainFromGrid exThree noControls exLat exLon exGrid sampleOptions startScene)"

text \<open>A box away from the origin.\<close>

definition offBox :: box3 where
  "offBox = \<lparr> bmin = (Fin 1, Fin 2, Fin 3), bmax = (Fin 3, Fin 6, Fin 4) \<rparr>"

definition offThree :: three where
  "offThree = fixedBoxes exBox offBox"

text \<open>
  A box without finite bounds, as the library computes it for a terrain with an infinite
  height.
\<close>

definition nanBox :: box3 where
  "nanBox = \<lparr> bmin = (NaN, NaN, NaN), bmax = (NaN, NaN, NaN) \<rparr>"

definition nanThree :: three where
  "nanThree = fixedBoxes nanBox nanBox"

definition varY :: variable where
  "varY = \<lparr> vname = ''y'', vdims = [''y''], vdata = [Fin 0, Fin 1] \<rparr>"

definition varLat :: variable where
  "varLat = \<lparr> vname = ''lat'', vdims = [''lat''], vdata = [Fin 50, Fin 51] \<rparr>"

definition readerYLat :: reader where
  "readerYLat = \<lparr> dimensions = [(''y'', 2), (''lat'', 2)], variables = [varY, varLat] \<rparr>"

definition varSquare :: variable where
  "varSquare = \<lparr> vname = ''elevation'', vdims = [''a'', ''b''],
                  vdata = [Fin 1, Fin 2, Fin 3, Fin 4] \<rparr>"

definition readerSquare :: reader where
  "readerSquare = \<lparr> dimensions = [(''a'', 2), (''b'', 2)], variables = [varSquare] \<rparr>"


definition varOf :: "reader \<Rightarrow> nat \<Rightarrow> variable" where
  "varOf rd i = variables rd ! i"

definition readerSurplus :: reader where
  "readerSurplus =
     \<lparr> dimensions = [(''lat'', 2), (''lon'', 2)],
       variables =
         [\<lparr> vname = ''first'', vdims = [''lat'', ''lon''],
            vdata = [Fin 1, Fin 2, Fin 3, Fin 4, Fin 5, Fin 6] \<rparr>,
          \<lparr> vname = ''second'', vdims = [''lat'', ''lon''],
            vdata = [Fin 1, Fin 2, Fin 3, Fin 4, Fin 7, Fin 8] \<rparr>,
          \<lparr> vname = ''third'', vdims = [''lat'', ''lon''],
            vdata = [Fin 1, Fin 2, Fin 3] \<rparr>] \<rparr>"

text \<open>A terrain with a height that is not finite, and a plate built before it.\<close>

definition infMesh :: mesh where
  "infMesh =
     \<lparr> geometry =
         \<lparr> attributes_position =
             Some [(Fin (- (1/2)), Fin (1/2), Fin 0), (Fin (1/2), Fin (1/2), NInf),
                   (Fin (- (1/2)), Fin (- (1/2)), Fin (1/4)), (Fin (1/2), Fin (- (1/2)), Fin 0)],
           index = Some [0, 2, 1, 2, 3, 1] \<rparr>,
       position = (Fin 0, Fin 0, Fin 0) \<rparr>"

definition oldPlate :: mesh where
  "oldPlate = \<lparr> geometry = BoxGeometry (Fin 1) (Fin 1) (Fin 5),
                position = (Fin 0, Fin 0, Fin (- (5/2))) \<rparr>"

definition staleScene :: scene where
  "staleScene = startScene\<lparr> terrainMesh := Some infMesh, baseMesh := Some oldPlate \<rparr>"

definition tileFile :: ncFile where
  "tileFile = \<lparr> fileName = ''tile.nc'', content = Some readerYLat \<rparr>"



section \<open>Properties of the rounding\<close>

lemma rne_cases: "rne x = \<lfloor>x\<rfloor> \<or> rne x = \<lfloor>x\<rfloor> + 1"
  by (simp add: rne_def Let_def)

lemma rne_of_int: "rne (of_int k) = k"
  by (simp add: rne_def)

lemma rne_mono:
  assumes "x \<le> y"
  shows "rne x \<le> rne y"
proof (cases "\<lfloor>x\<rfloor> = \<lfloor>y\<rfloor>")
  case True
  then have "x - of_int \<lfloor>x\<rfloor> \<le> y - of_int \<lfloor>y\<rfloor>" using assms by simp
  then show ?thesis using True by (auto simp: rne_def Let_def)
next
  case False
  then have "\<lfloor>x\<rfloor> < \<lfloor>y\<rfloor>" using floor_mono[OF assms] by simp
  moreover have "rne x \<le> \<lfloor>x\<rfloor> + 1" using rne_cases[of x] by auto
  moreover have "\<lfloor>y\<rfloor> \<le> rne y" using rne_cases[of y] by auto
  ultimately show ?thesis by linarith
qed

lemma rne_err: "\<bar>of_int (rne x) - x\<bar> \<le> 1 / 2"
proof -
  have "of_int \<lfloor>x\<rfloor> \<le> x" "x < of_int \<lfloor>x\<rfloor> + 1" by linarith+
  then show ?thesis by (auto simp: rne_def Let_def abs_le_iff)
qed

lemma search_range: "E \<le> search a E n \<and> search a E n \<le> E + int n"
proof (induction n arbitrary: E)
  case 0
  then show ?case by simp
next
  case (Suc n)
  from Suc[of "E + 1"] show ?case by auto
qed

lemma search_upper: "search a E n < E + int n \<Longrightarrow> a < 2 powi (search a E n + 1)"
proof (induction n arbitrary: E)
  case 0
  then show ?case by simp
next
  case (Suc n)
  show ?case
  proof (cases "a < 2 powi (E + 1)")
    case True
    then show ?thesis by simp
  next
    case False
    then have "search a (E + 1) n < (E + 1) + int n" using Suc.prems by simp
    from Suc.IH[OF this] show ?thesis using False by simp
  qed
qed

lemma search_lower: "E < search a E n \<Longrightarrow> 2 powi (search a E n) \<le> a"
proof (induction n arbitrary: E)
  case 0
  then show ?case by simp
next
  case (Suc n)
  show ?case
  proof (cases "a < 2 powi (E + 1)")
    case True
    then show ?thesis using Suc.prems by simp
  next
    case False
    show ?thesis
    proof (cases "E + 1 < search a (E + 1) n")
      case True
      from Suc.IH[OF this] show ?thesis using False by simp
    next
      case F2: False
      then have "search a (E + 1) n = E + 1" using search_range[of "E + 1" a n] by linarith
      then show ?thesis using False by simp
    qed
  qed
qed

lemma binade_range: "lo \<le> hi \<Longrightarrow> lo \<le> binade lo hi a \<and> binade lo hi a \<le> hi + 1"
  using search_range[of lo a "nat (hi - lo + 1)"] by (simp add: binade_def)

lemma binade_upper: "lo \<le> hi \<Longrightarrow> binade lo hi a \<le> hi \<Longrightarrow> a < 2 powi (binade lo hi a + 1)"
  unfolding binade_def by (rule search_upper) simp

lemma binade_lower: "lo < binade lo hi a \<Longrightarrow> 2 powi (binade lo hi a) \<le> a"
  unfolding binade_def by (rule search_lower)

lemma pow2_mono: "m \<le> n \<Longrightarrow> (2::real) powi m \<le> 2 powi n"
  by (rule power_int_increasing) simp_all

lemma binade_eqI:
  assumes "lo \<le> E" "E \<le> hi" "a < 2 powi (E + 1)" "E = lo \<or> 2 powi E \<le> a"
  shows "binade lo hi a = E"
proof -
  let ?B = "binade lo hi a"
  have lohi: "lo \<le> hi" using assms by simp
  have r: "lo \<le> ?B" "?B \<le> hi + 1" using binade_range[OF lohi] by simp_all
  have "\<not> ?B < E"
  proof
    assume l: "?B < E"
    then have "a < 2 powi (?B + 1)" using binade_upper[OF lohi] assms(2) by simp
    also have "\<dots> \<le> 2 powi E" using l by (intro pow2_mono) simp
    finally have "a < 2 powi E" .
    moreover have "E \<noteq> lo" using l r by simp
    ultimately show False using assms(4) by simp
  qed
  moreover have "\<not> E < ?B"
  proof
    assume l: "E < ?B"
    then have "2 powi ?B \<le> a" using binade_lower[of lo hi a] assms(1) by simp
    moreover have "2 powi (E + 1) \<le> (2::real) powi ?B" using l by (intro pow2_mono) simp
    ultimately show False using assms(3) by simp
  qed
  ultimately show ?thesis by simp
qed


lemma pow2_pos: "0 < (2::real) powi n"
  by simp

lemma pow2_add: "(2::real) powi (m + n) = 2 powi m * 2 powi n"
  by (simp add: power_int_add)

lemma pow2_nat: "0 \<le> n \<Longrightarrow> (2::real) powi n = of_int (2 ^ nat n)"
  by (simp add: power_int_def)

lemma pow2_strict_mono: "m < n \<Longrightarrow> (2::real) powi m < 2 powi n"
  by (rule power_int_strict_increasing) simp_all

lemma rne_eqI: "\<bar>x - of_int N\<bar> < 1 / 2 \<Longrightarrow> rne x = N"
proof -
  assume a: "\<bar>x - of_int N\<bar> < 1 / 2"
  show ?thesis
  proof (cases "of_int N \<le> x")
    case True
    then have "\<lfloor>x\<rfloor> = N" using a by (intro floor_unique) (auto simp: abs_less_iff)
    then show ?thesis using a True by (auto simp: rne_def Let_def abs_less_iff)
  next
    case False
    then have "\<lfloor>x\<rfloor> = N - 1" using a by (intro floor_unique) (auto simp: abs_less_iff)
    then show ?thesis using a False by (auto simp: rne_def Let_def abs_less_iff)
  qed
qed

lemma mag_nonneg: "0 \<le> a \<Longrightarrow> 0 \<le> mag p lo hi a"
proof -
  assume a: "0 \<le> a"
  let ?q = "(2::real) powi (binade lo hi a - int p + 1)"
  have "0 \<le> a / ?q" using a by simp
  then have "rne (of_int 0) \<le> rne (a / ?q)" by (intro rne_mono) simp
  then have "0 \<le> rne (a / ?q)" by (simp only: rne_of_int)
  then show ?thesis by (simp add: mag_def Let_def)
qed

lemma mag_upper:
  assumes "lo \<le> hi" "binade lo hi a \<le> hi"
  shows "mag p lo hi a \<le> 2 powi (binade lo hi a + 1)"
proof -
  let ?E = "binade lo hi a"
  let ?q = "(2::real) powi (?E - int p + 1)"
  have q: "0 < ?q" by simp
  have split: "(2::real) powi (?E + 1) = of_int (2 ^ p) * ?q"
  proof -
    have "(2::real) powi (?E + 1) = 2 powi (int p + (?E - int p + 1))" by simp
    also have "\<dots> = 2 powi (int p) * ?q" by (rule pow2_add)
    finally show ?thesis by simp
  qed
  have "a < 2 powi (?E + 1)" using binade_upper[OF assms] .
  then have "a / ?q \<le> of_int (2 ^ p)" using q unfolding split by (simp add: divide_le_eq)
  then have "rne (a / ?q) \<le> rne (of_int (2 ^ p))" by (rule rne_mono)
  then have "rne (a / ?q) \<le> 2 ^ p" by (simp only: rne_of_int)
  then have "(of_int (rne (a / ?q)) :: real) \<le> of_int (2 ^ p)" by (simp only: of_int_le_iff)
  then have "of_int (rne (a / ?q)) * ?q \<le> of_int (2 ^ p) * ?q"
    using q by (intro mult_right_mono) simp_all
  then show ?thesis unfolding split by (simp add: mag_def Let_def)
qed

lemma mag_lower:
  assumes "lo < binade lo hi a" "0 < p"
  shows "2 powi (binade lo hi a) \<le> mag p lo hi a"
proof -
  let ?E = "binade lo hi a"
  let ?q = "(2::real) powi (?E - int p + 1)"
  have q: "0 < ?q" by simp
  have split: "(2::real) powi ?E = of_int (2 ^ (p - 1)) * ?q"
  proof -
    have "int (p - 1) = int p - 1" using assms(2) by (simp add: of_nat_diff)
    then have "?E = int (p - 1) + (?E - int p + 1)" by simp
    then have "(2::real) powi ?E = 2 powi (int (p - 1) + (?E - int p + 1))" by (rule arg_cong)
    also have "\<dots> = 2 powi (int (p - 1)) * ?q" by (rule pow2_add)
    finally show ?thesis by simp
  qed
  have "2 powi ?E \<le> a" using binade_lower[OF assms(1)] .
  then have "of_int (2 ^ (p - 1)) \<le> a / ?q" using q unfolding split by (simp add: le_divide_eq)
  then have "rne (of_int (2 ^ (p - 1))) \<le> rne (a / ?q)" by (rule rne_mono)
  then have "2 ^ (p - 1) \<le> rne (a / ?q)" by (simp only: rne_of_int)
  then have "(of_int (2 ^ (p - 1)) :: real) \<le> of_int (rne (a / ?q))" by (simp only: of_int_le_iff)
  then have "of_int (2 ^ (p - 1)) * ?q \<le> of_int (rne (a / ?q)) * ?q"
    using q by (intro mult_right_mono) simp_all
  then show ?thesis unfolding split by (simp add: mag_def Let_def)
qed

lemma binade_mono:
  assumes "lo \<le> hi" "a \<le> b"
  shows "binade lo hi a \<le> binade lo hi b"
proof (rule ccontr)
  assume "\<not> binade lo hi a \<le> binade lo hi b"
  then have l: "binade lo hi b < binade lo hi a" by simp
  have r: "lo \<le> binade lo hi b" "binade lo hi a \<le> hi + 1"
    using binade_range[OF assms(1)] by simp_all
  have "b < 2 powi (binade lo hi b + 1)" using binade_upper[OF assms(1)] l r by simp
  also have "\<dots> \<le> 2 powi (binade lo hi a)" using l by (intro pow2_mono) simp
  also have "\<dots> \<le> a" using binade_lower[of lo hi a] l r by simp
  finally show False using assms(2) by simp
qed

lemma mag_mono:
  assumes "lo \<le> hi" "0 < p" "a \<le> b"
  shows "mag p lo hi a \<le> mag p lo hi b"
proof (cases "binade lo hi a = binade lo hi b")
  case True
  let ?q = "(2::real) powi (binade lo hi b - int p + 1)"
  have "a / ?q \<le> b / ?q" using assms(3) by (simp add: divide_right_mono)
  then have "rne (a / ?q) \<le> rne (b / ?q)" by (rule rne_mono)
  then have "(of_int (rne (a / ?q)) :: real) * ?q \<le> of_int (rne (b / ?q)) * ?q"
    by (intro mult_right_mono) simp_all
  then show ?thesis by (simp add: mag_def Let_def True)
next
  case False
  then have l: "binade lo hi a < binade lo hi b"
    using binade_mono[OF assms(1,3)] by simp
  have r: "lo \<le> binade lo hi a" "binade lo hi b \<le> hi + 1"
    using binade_range[OF assms(1)] by simp_all
  have "mag p lo hi a \<le> 2 powi (binade lo hi a + 1)"
    using l r by (intro mag_upper[OF assms(1)]) simp
  also have "\<dots> \<le> 2 powi (binade lo hi b)" using l by (intro pow2_mono) simp
  also have "\<dots> \<le> mag p lo hi b" using l r by (intro mag_lower assms(2)) simp
  finally show ?thesis .
qed

lemma mag_err: "\<bar>mag p lo hi a - a\<bar> \<le> 2 powi (binade lo hi a - int p)"
proof -
  let ?E = "binade lo hi a"
  let ?q = "(2::real) powi (?E - int p + 1)"
  have q: "0 < ?q" by simp
  have half: "?q / 2 = 2 powi (?E - int p)"
  proof -
    have "?q = 2 powi (?E - int p) * 2 powi 1" by (rule pow2_add)
    then show ?thesis by simp
  qed
  have "mag p lo hi a - a = (of_int (rne (a / ?q)) - a / ?q) * ?q"
    using q by (simp add: mag_def Let_def algebra_simps)
  then have "\<bar>mag p lo hi a - a\<bar> = \<bar>of_int (rne (a / ?q)) - a / ?q\<bar> * ?q"
    using q by (simp add: abs_mult)
  also have "\<dots> \<le> 1 / 2 * ?q" using q by (intro mult_right_mono rne_err) simp
  finally show ?thesis using half by simp
qed

lemma mag_err_rel:
  assumes "lo \<le> hi" "0 \<le> a"
  shows "\<bar>mag p lo hi a - a\<bar> \<le> a * 2 powi (- int p) + 2 powi (lo - int p)"
proof (cases "lo < binade lo hi a")
  case True
  let ?E = "binade lo hi a"
  have a: "2 powi ?E \<le> a" using binade_lower[OF True] .
  have "(2::real) powi (?E - int p) = 2 powi ?E * 2 powi (- int p)"
    using pow2_add[of ?E "- int p"] by simp
  also have "\<dots> \<le> a * 2 powi (- int p)" using a by (intro mult_right_mono) simp_all
  finally have "(2::real) powi (?E - int p) \<le> a * 2 powi (- int p) + 2 powi (lo - int p)"
    using pow2_pos[of "lo - int p"] by linarith
  then show ?thesis using mag_err[of p lo hi a] by linarith
next
  case False
  then have "binade lo hi a = lo" using binade_range[OF assms(1), of a] by simp
  then have e: "\<bar>mag p lo hi a - a\<bar> \<le> 2 powi (lo - int p)" using mag_err[of p lo hi a] by simp
  have "0 \<le> a * 2 powi (- int p)" using assms(2) by simp
  then show ?thesis using e by linarith
qed


lemma binade_zero: "binade lo hi 0 = lo"
proof (cases "nat (hi - lo + 1)")
  case 0
  then show ?thesis by (simp add: binade_def)
next
  case (Suc n)
  then show ?thesis by (simp add: binade_def)
qed

lemma mag_zero: "mag p lo hi 0 = 0"
  by (simp add: mag_def Let_def rne_def)

lemma isRep_neg: "isRep p lo hi (- y) = isRep p lo hi y"
proof -
  have "isRep p lo hi (- y)" if "isRep p lo hi y" for y
  proof -
    from that obtain m e where "y = of_int m * 2 powi e" "\<bar>m\<bar> < 2 ^ p"
        "lo - int p + 1 \<le> e" "e \<le> hi - int p + 1"
      unfolding isRep_def by blast
    then have "- y = of_int (- m) * 2 powi e \<and> \<bar>- m\<bar> < 2 ^ p \<and> lo - int p + 1 \<le> e \<and> e \<le> hi - int p + 1"
      by simp
    then show ?thesis unfolding isRep_def by blast
  qed
  from this[of y] this[of "- y"] show ?thesis by auto
qed

lemma mag_id:
  assumes lohi: "lo \<le> hi" and y: "0 \<le> y" and rep: "isRep p lo hi y"
  shows "mag p lo hi y = y"
proof -
  from rep obtain m e where me: "y = of_int m * 2 powi e" "\<bar>m\<bar> < 2 ^ p"
      "lo - int p + 1 \<le> e" "e \<le> hi - int p + 1"
    unfolding isRep_def by blast
  let ?E = "binade lo hi y"
  let ?e' = "?E - int p + 1"
  have ylt: "y < 2 powi (int p + e)"
  proof -
    have "m < 2 ^ p" using me(2) by simp
    then have "(of_int m :: real) < of_int (2 ^ p)" by (simp only: of_int_less_iff)
    then have "of_int m * 2 powi e < of_int (2 ^ p) * (2::real) powi e"
      by (intro mult_strict_right_mono) simp_all
    also have "\<dots> = 2 powi (int p + e)" by (simp add: pow2_add)
    finally show ?thesis by (simp add: me(1))
  qed
  have le: "?e' \<le> e"
  proof (cases "lo < ?E")
    case True
    have "2 powi ?E \<le> y" using binade_lower[OF True] .
    then have "(2::real) powi ?E < 2 powi (int p + e)" using ylt by simp
    then have "?E < int p + e"
      using pow2_mono[of "int p + e" ?E] by (cases "?E < int p + e") auto
    then show ?thesis by simp
  next
    case False
    then have "?E = lo" using binade_range[OF lohi, of y] by simp
    then show ?thesis using me(3) by simp
  qed
  have "y / 2 powi ?e' = of_int m * (2 powi e / 2 powi ?e')" by (simp add: me(1))
  also have "2 powi e / (2::real) powi ?e' = 2 powi (e - ?e')" by (simp add: power_int_diff)
  also have "\<dots> = of_int (2 ^ nat (e - ?e'))" using le by (intro pow2_nat) simp
  finally have "y / 2 powi ?e' = of_int (m * 2 ^ nat (e - ?e'))" by simp
  then have "rne (y / 2 powi ?e') = m * 2 ^ nat (e - ?e')" by (simp only: rne_of_int)
  then have "mag p lo hi y = of_int (m * 2 ^ nat (e - ?e')) * 2 powi ?e'"
    by (simp add: mag_def Let_def)
  also have "\<dots> = y / 2 powi ?e' * 2 powi ?e'"
    using \<open>y / 2 powi ?e' = of_int (m * 2 ^ nat (e - ?e'))\<close> by simp
  also have "\<dots> = y" by simp
  finally show ?thesis .
qed

lemma isRep_bound:
  assumes "isRep p lo hi y"
  shows "\<bar>y\<bar> < 2 powi (hi + 1)"
proof -
  from assms obtain m e where me: "y = of_int m * 2 powi e" "\<bar>m\<bar> < 2 ^ p"
      "lo - int p + 1 \<le> e" "e \<le> hi - int p + 1"
    unfolding isRep_def by blast
  have "(of_int \<bar>m\<bar> :: real) < of_int (2 ^ p)" using me(2) by (simp only: of_int_less_iff)
  then have "of_int \<bar>m\<bar> * 2 powi e < of_int (2 ^ p) * (2::real) powi e"
    by (intro mult_strict_right_mono) simp_all
  also have "\<dots> = 2 powi (int p + e)" by (simp add: pow2_add)
  also have "\<dots> \<le> 2 powi (hi + 1)" using me(4) by (intro pow2_mono) simp
  finally show ?thesis by (simp add: me(1) abs_mult)
qed

lemma roundTo_pos:
  "0 < x \<Longrightarrow> roundTo p lo hi x =
     (if 2 powi (hi + 1) \<le> mag p lo hi x then PInf else Fin (mag p lo hi x))"
  by (simp add: roundTo_def Let_def)

lemma roundTo_negative:
  "x < 0 \<Longrightarrow> roundTo p lo hi x =
     (if 2 powi (hi + 1) \<le> mag p lo hi (- x) then NInf else Fin (- mag p lo hi (- x)))"
  by (simp add: roundTo_def Let_def)

lemma roundTo_zero: "roundTo p lo hi 0 = Fin 0"
  by (simp add: roundTo_def)

lemma roundTo_minus: "roundTo p lo hi (- x) = num_neg (roundTo p lo hi x)"
proof -
  consider "x = 0" | "0 < x" | "x < 0" by linarith
  then show ?thesis
    by cases (simp_all add: roundTo_zero roundTo_pos roundTo_negative)
qed

lemma roundTo_id:
  assumes "lo \<le> hi" "isRep p lo hi y"
  shows "roundTo p lo hi y = Fin y"
proof -
  have b: "\<bar>y\<bar> < 2 powi (hi + 1)" by (rule isRep_bound[OF assms(2)])
  consider "y = 0" | "0 < y" | "y < 0" by linarith
  then show ?thesis
  proof cases
    case 1
    then show ?thesis by (simp add: roundTo_zero)
  next
    case 2
    then have "mag p lo hi y = y" using assms by (intro mag_id) simp_all
    then show ?thesis using 2 b by (simp add: roundTo_pos)
  next
    case 3
    then have "mag p lo hi (- y) = - y" using assms by (intro mag_id) (simp_all add: isRep_neg)
    then show ?thesis using 3 b by (simp add: roundTo_negative)
  qed
qed

lemma mag_rep:
  assumes lohi: "lo \<le> hi" and p: "0 < p" and a: "0 \<le> a"
      and fin: "mag p lo hi a < 2 powi (hi + 1)"
  shows "isRep p lo hi (mag p lo hi a)"
proof -
  let ?E = "binade lo hi a"
  let ?q = "(2::real) powi (?E - int p + 1)"
  let ?N = "rne (a / ?q)"
  have r: "lo \<le> ?E" "?E \<le> hi + 1" using binade_range[OF lohi] by simp_all
  have Ehi: "?E \<le> hi"
  proof (rule ccontr)
    assume "\<not> ?E \<le> hi"
    then have e: "?E = hi + 1" using r by simp
    then have "lo < ?E" using lohi by simp
    from mag_lower[OF this p] show False using fin e by simp
  qed
  have N0: "0 \<le> ?N"
  proof -
    have "rne (of_int 0) \<le> ?N" using a by (intro rne_mono) simp
    then show ?thesis by (simp only: rne_of_int)
  qed
  have m: "mag p lo hi a = of_int ?N * ?q" by (simp add: mag_def Let_def)
  have split: "(2::real) powi (?E + 1) = of_int (2 ^ p) * ?q"
  proof -
    have "(2::real) powi (?E + 1) = 2 powi (int p + (?E - int p + 1))" by simp
    also have "\<dots> = 2 powi (int p) * ?q" by (rule pow2_add)
    finally show ?thesis by simp
  qed
  have "of_int ?N * ?q \<le> of_int (2 ^ p) * ?q"
    using mag_upper[OF lohi Ehi, of p] unfolding m split .
  then have "(of_int ?N :: real) \<le> of_int (2 ^ p)" by (simp only: mult_le_cancel_right_pos[OF pow2_pos])
  then have Nle: "?N \<le> 2 ^ p" by (simp only: of_int_le_iff)
  show ?thesis
  proof (cases "?N = 2 ^ p")
    case False
    then have "\<bar>?N\<bar> < 2 ^ p" using Nle N0 by simp
    moreover have "lo - int p + 1 \<le> ?E - int p + 1" "?E - int p + 1 \<le> hi - int p + 1"
      using r Ehi by simp_all
    ultimately show ?thesis unfolding isRep_def using m by blast
  next
    case True
    then have top: "mag p lo hi a = 2 powi (?E + 1)" unfolding m split by simp
    then have "?E + 1 < hi + 1" using fin pow2_mono[of "hi + 1" "?E + 1"] by (cases "?E + 1 < hi + 1") auto
    then have E1: "?E + 1 \<le> hi" by simp
    have "int (p - 1) = int p - 1" using p by (simp add: of_nat_diff)
    then have "?E + 1 = int (p - 1) + (?E - int p + 2)" by simp
    then have "(2::real) powi (?E + 1) = 2 powi (int (p - 1) + (?E - int p + 2))" by (rule arg_cong)
    also have "\<dots> = of_int (2 ^ (p - 1)) * 2 powi (?E - int p + 2)" by (simp add: pow2_add del: of_int_power)
    finally have "mag p lo hi a = of_int (2 ^ (p - 1)) * 2 powi (?E - int p + 2)" using top by simp
    moreover have "\<bar>(2::int) ^ (p - 1)\<bar> < 2 ^ p" using p by simp
    moreover have "lo - int p + 1 \<le> ?E - int p + 2" "?E - int p + 2 \<le> hi - int p + 1"
      using r E1 by simp_all
    ultimately show ?thesis unfolding isRep_def by blast
  qed
qed

lemma roundTo_rep:
  assumes "lo \<le> hi" "0 < p" "roundTo p lo hi x = Fin y"
  shows "isRep p lo hi y"
proof -
  consider "x = 0" | "0 < x" | "x < 0" by linarith
  then show ?thesis
  proof cases
    case 1
    then have "y = of_int 0 * 2 powi (lo - int p + 1)" using assms(3) by (simp add: roundTo_zero)
    then show ?thesis unfolding isRep_def using assms(1) by (intro exI[of _ 0] exI[of _ "lo - int p + 1"]) simp
  next
    case 2
    then have "mag p lo hi x < 2 powi (hi + 1)" "y = mag p lo hi x"
      using assms(3) by (auto simp: roundTo_pos split: if_splits)
    then show ?thesis using mag_rep[OF assms(1,2), of x] 2 by simp
  next
    case 3
    then have "mag p lo hi (- x) < 2 powi (hi + 1)" "y = - mag p lo hi (- x)"
      using assms(3) by (auto simp: roundTo_negative split: if_splits)
    then show ?thesis using mag_rep[OF assms(1,2), of "- x"] 3 by (simp add: isRep_neg)
  qed
qed

lemma roundTo_bound: "roundTo p lo hi x = Fin y \<Longrightarrow> \<bar>y\<bar> < 2 powi (hi + 1)"
proof -
  assume a: "roundTo p lo hi x = Fin y"
  consider "x = 0" | "0 < x" | "x < 0" by linarith
  then show ?thesis
  proof cases
    case 1
    then show ?thesis using a by (auto simp: roundTo_zero)
  next
    case 2
    then have "mag p lo hi x < 2 powi (hi + 1)" "y = mag p lo hi x"
      using a by (auto simp: roundTo_pos split: if_splits)
    then show ?thesis using mag_nonneg[of x p lo hi] 2 by simp
  next
    case 3
    then have "mag p lo hi (- x) < 2 powi (hi + 1)" "y = - mag p lo hi (- x)"
      using a by (auto simp: roundTo_negative split: if_splits)
    then show ?thesis using mag_nonneg[of "- x" p lo hi] 3 by simp
  qed
qed

lemma roundTo_err:
  assumes "lo \<le> hi" "roundTo p lo hi x = Fin y"
  shows "\<bar>y - x\<bar> \<le> \<bar>x\<bar> * 2 powi (- int p) + 2 powi (lo - int p)"
proof -
  consider "x = 0" | "0 < x" | "x < 0" by linarith
  then show ?thesis
  proof cases
    case 1
    then show ?thesis using assms(2) by (auto simp: roundTo_zero)
  next
    case 2
    then have "y = mag p lo hi x" using assms(2) by (auto simp: roundTo_pos split: if_splits)
    then show ?thesis using mag_err_rel[OF assms(1), of x p] 2 by simp
  next
    case 3
    then have "y = - mag p lo hi (- x)" using assms(2) by (auto simp: roundTo_negative split: if_splits)
    then show ?thesis using mag_err_rel[OF assms(1), of "- x" p] 3 by simp
  qed
qed

lemma roundTo_mono:
  assumes lohi: "lo \<le> hi" and p: "0 < p" and xy: "x \<le> y"
  shows "num_le (roundTo p lo hi x) (roundTo p lo hi y)"
proof -
  have pos: "num_le (Fin 0) (roundTo p lo hi z)" if "0 \<le> z" for z
  proof (cases "z = 0")
    case True
    then show ?thesis by (simp add: roundTo_zero num_le_def)
  next
    case False
    then have "0 < z" using that by simp
    then show ?thesis using mag_nonneg[of z p lo hi] by (auto simp: roundTo_pos num_le_def)
  qed
  have neg: "num_le (roundTo p lo hi z) (Fin 0)" if "z \<le> 0" for z
  proof (cases "z = 0")
    case True
    then show ?thesis by (simp add: roundTo_zero num_le_def)
  next
    case False
    then have "z < 0" using that by simp
    then show ?thesis using mag_nonneg[of "- z" p lo hi] by (auto simp: roundTo_negative num_le_def)
  qed
  have trans0: "num_le a b" if "num_le a (Fin 0)" "num_le (Fin 0) b" for a b
    using that by (cases a; cases b) (auto simp: num_le_def)
  consider "x \<le> 0 \<and> 0 \<le> y" | "0 < x" | "y < 0" using xy by linarith
  then show ?thesis
  proof cases
    case 1
    then show ?thesis using neg[of x] pos[of y] trans0 by blast
  next
    case 2
    then have "0 < y" using xy by simp
    then show ?thesis
      using 2 mag_mono[OF lohi p xy] by (auto simp: roundTo_pos num_le_def)
  next
    case 3
    then have x: "x < 0" using xy by simp
    have "- y \<le> - x" using xy by simp
    from mag_mono[OF lohi p this] show ?thesis
      using 3 x by (auto simp: roundTo_negative num_le_def)
  qed
qed

lemma roundTo_eqI:
  assumes "lo \<le> E" "E \<le> hi" "0 < x" "x < 2 powi (E + 1)" "E = lo \<or> 2 powi E \<le> x"
      and "q = 2 powi (E - int p + 1)"
      and "\<bar>x / q - of_int N\<bar> < 1 / 2"
      and "of_int N * q < 2 powi (hi + 1)"
  shows "roundTo p lo hi x = Fin (of_int N * q)"
proof -
  have "binade lo hi x = E" by (rule binade_eqI[OF assms(1,2,4,5)])
  moreover have "rne (x / q) = N" by (rule rne_eqI[OF assms(7)])
  ultimately have "mag p lo hi x = of_int N * q" using assms(6) by (simp add: mag_def Let_def)
  then show ?thesis using assms(3,8) by (simp add: roundTo_pos)
qed

subsection \<open>Doubles and single-precision numbers\<close>

lemma double_zero: "double 0 = Fin 0"
  by (simp add: double_def roundTo_zero)

lemma float32_zero: "float32 0 = Fin 0"
  by (simp add: float32_def roundTo_zero)

lemma double_mono: "x \<le> y \<Longrightarrow> num_le (double x) (double y)"
  unfolding double_def by (rule roundTo_mono) simp_all

lemma float32_mono: "x \<le> y \<Longrightarrow> num_le (float32 x) (float32 y)"
  unfolding float32_def by (rule roundTo_mono) simp_all

lemma double_minus: "double (- x) = num_neg (double x)"
  unfolding double_def by (rule roundTo_minus)

lemma float32_minus: "float32 (- x) = num_neg (float32 x)"
  unfolding float32_def by (rule roundTo_minus)

lemma double_id: "isDouble y \<Longrightarrow> double y = Fin y"
  unfolding double_def isDouble_def by (rule roundTo_id) simp_all

lemma double_rep: "double x = Fin y \<Longrightarrow> isDouble y"
  unfolding double_def isDouble_def by (rule roundTo_rep[of _ _ _ x]) simp_all

lemma double_err: "double x = Fin y \<Longrightarrow> \<bar>y - x\<bar> \<le> \<bar>x\<bar> * 2 powi (- 53) + 2 powi (- 1075)"
  using roundTo_err[of "- 1022" 1023 53 x y] by (simp add: double_def)

lemma float32_err: "float32 x = Fin y \<Longrightarrow> \<bar>y - x\<bar> \<le> \<bar>x\<bar> * 2 powi (- 24) + 2 powi (- 150)"
  using roundTo_err[of "- 126" 127 24 x y] by (simp add: float32_def)

lemma double_bound: "double x = Fin y \<Longrightarrow> \<bar>y\<bar> < 2 powi 1024"
  using roundTo_bound[of 53 "- 1022" 1023 x y] by (simp add: double_def)

lemma isDouble_pow2: "- 1074 \<le> k \<Longrightarrow> k \<le> 1023 \<Longrightarrow> isDouble (2 powi k)"
proof -
  assume k: "- 1074 \<le> k" "k \<le> 1023"
  show ?thesis
  proof (cases "k \<le> 971")
    case True
    have "(2::real) powi k = of_int 1 * 2 powi k" by simp
    then show ?thesis unfolding isDouble_def isRep_def using k True
      by (intro exI[of _ 1] exI[of _ k]) simp
  next
    case False
    have "(2::real) powi k = 2 powi (k - 971) * 2 powi 971"
      using pow2_add[of "k - 971" 971] by simp
    also have "(2::real) powi (k - 971) = of_int (2 ^ nat (k - 971))"
      using False by (intro pow2_nat) simp
    finally have e: "(2::real) powi k = of_int (2 ^ nat (k - 971)) * 2 powi 971" .
    have "nat (k - 971) < 53" using k False by simp
    then have "(2::int) ^ nat (k - 971) < 2 ^ 53" by (intro power_strict_increasing) simp_all
    then have "\<bar>(2::int) ^ nat (k - 971)\<bar> < 2 ^ 53" by simp
    then show ?thesis unfolding isDouble_def isRep_def using e
      by (intro exI[of _ "2 ^ nat (k - 971)"] exI[of _ 971]) simp
  qed
qed

lemma isFloat32_pow2: "- 149 \<le> k \<Longrightarrow> k \<le> 127 \<Longrightarrow> isRep 24 (- 126) 127 (2 powi k)"
proof -
  assume k: "- 149 \<le> k" "k \<le> 127"
  show ?thesis
  proof (cases "k \<le> 104")
    case True
    have "(2::real) powi k = of_int 1 * 2 powi k" by simp
    then show ?thesis unfolding isRep_def using k True
      by (intro exI[of _ 1] exI[of _ k]) simp
  next
    case False
    have "(2::real) powi k = 2 powi (k - 104) * 2 powi 104"
      using pow2_add[of "k - 104" 104] by simp
    also have "(2::real) powi (k - 104) = of_int (2 ^ nat (k - 104))"
      using False by (intro pow2_nat) simp
    finally have e: "(2::real) powi k = of_int (2 ^ nat (k - 104)) * 2 powi 104" .
    have "nat (k - 104) < 24" using k False by simp
    then have "(2::int) ^ nat (k - 104) < 2 ^ 24" by (intro power_strict_increasing) simp_all
    then have "\<bar>(2::int) ^ nat (k - 104)\<bar> < 2 ^ 24" by simp
    then show ?thesis unfolding isRep_def using e
      by (intro exI[of _ "2 ^ nat (k - 104)"] exI[of _ 104]) simp
  qed
qed

lemma double_pow2: "- 1074 \<le> k \<Longrightarrow> k \<le> 1023 \<Longrightarrow> double (2 powi k) = Fin (2 powi k)"
  by (intro double_id isDouble_pow2)

lemma float32_pow2: "- 149 \<le> k \<Longrightarrow> k \<le> 127 \<Longrightarrow> float32 (2 powi k) = Fin (2 powi k)"
  unfolding float32_def by (intro roundTo_id isFloat32_pow2) simp_all

lemma num_le_Fin: "num_le (Fin a) (Fin b) \<longleftrightarrow> a \<le> b"
  by (auto simp: num_le_def)

lemma isFinite_iff: "isFinite a \<longleftrightarrow> (\<exists>r. a = Fin r)"
  by (cases a) simp_all

lemma num_le_Fin_finite: "num_le (Fin 0) a \<Longrightarrow> num_le a (Fin b) \<Longrightarrow> \<exists>r. a = Fin r \<and> 0 \<le> r \<and> r \<le> b"
  by (cases a) (auto simp: num_le_def)

text \<open>A real between 0 and a power of two in range rounds to a finite number between them.\<close>

lemma double_finite:
  assumes "0 \<le> x" "x \<le> 2 powi k" "- 1074 \<le> k" "k \<le> 1023"
  shows "\<exists>y. double x = Fin y \<and> 0 \<le> y \<and> y \<le> 2 powi k"
proof -
  have "num_le (Fin 0) (double x)" using double_mono[OF assms(1)] by (simp add: double_zero)
  moreover have "num_le (double x) (Fin (2 powi k))"
    using double_mono[OF assms(2)] by (simp add: double_pow2[OF assms(3,4)])
  ultimately show ?thesis by (rule num_le_Fin_finite)
qed

lemma float32_finite:
  assumes "0 \<le> x" "x \<le> 2 powi k" "- 149 \<le> k" "k \<le> 127"
  shows "\<exists>y. float32 x = Fin y \<and> 0 \<le> y \<and> y \<le> 2 powi k"
proof -
  have "num_le (Fin 0) (float32 x)" using float32_mono[OF assms(1)] by (simp add: float32_zero)
  moreover have "num_le (float32 x) (Fin (2 powi k))"
    using float32_mono[OF assms(2)] by (simp add: float32_pow2[OF assms(3,4)])
  ultimately show ?thesis by (rule num_le_Fin_finite)
qed

text \<open>The literals of the code and the values of the examples.\<close>

lemma double_eqI:
  assumes "- 1022 \<le> E" "E \<le> 1023" "0 < x" "x < 2 powi (E + 1)" "E = - 1022 \<or> 2 powi E \<le> x"
      and "q = 2 powi (E - 52)"
      and "\<bar>x / q - of_int N\<bar> < 1 / 2"
      and "of_int N * q < 2 powi 1024"
  shows "double x = Fin (of_int N * q)"
  unfolding double_def using assms by (intro roundTo_eqI[where E = E]) simp_all

lemma float32_eqI:
  assumes "- 126 \<le> E" "E \<le> 127" "0 < x" "x < 2 powi (E + 1)" "E = - 126 \<or> 2 powi E \<le> x"
      and "q = 2 powi (E - 23)"
      and "\<bar>x / q - of_int N\<bar> < 1 / 2"
      and "of_int N * q < 2 powi 128"
  shows "float32 x = Fin (of_int N * q)"
  unfolding float32_def using assms by (intro roundTo_eqI[where E = E]) simp_all

lemma double_3_10: "double (3 / 10) = Fin (5404319552844595 / 18014398509481984)"
  using double_eqI[of "- 2" "3 / 10" "1 / 18014398509481984" 5404319552844595] by simp

lemma double_1e6: "double (1 / 1000000) = Fin (4722366482869645 / 4722366482869645213696)"
  using double_eqI[of "- 20" "1 / 1000000" "1 / 4722366482869645213696" 4722366482869645] by simp

lemma isDouble_int: "\<bar>k\<bar> < 2 ^ 53 \<Longrightarrow> isDouble (of_int k)"
  unfolding isDouble_def isRep_def by (intro exI[of _ k] exI[of _ 0]) simp

lemma double_numeral [simp]: "numeral n < (2::int) ^ 53 \<Longrightarrow> double (numeral n) = Fin (numeral n)"
  using double_id[OF isDouble_int[of "numeral n"]] by simp

lemma double_one [simp]: "double 1 = Fin 1"
  using double_id[OF isDouble_int[of 1]] by simp

section \<open>Properties of the terrain builder\<close>

lemma length_PlaneGeometry:
  "length (positions (PlaneGeometry w h ws hs)) = (ws + 1) * (hs + 1)"
  by (simp add: PlaneGeometry_def positions_def Float32BufferAttribute_def Let_def length_concat
        comp_def sum_list_triv)

lemma sequenceE_map_Inr:
  "(\<And>x. x \<in> set xs \<Longrightarrow> f x = Inr (g x)) \<Longrightarrow> sequenceE (map f xs) = Inr (map g xs)"
  by (induction xs) auto

lemma getZ_setZs: "length zs = length ps \<Longrightarrow> map getZ (setZs ps zs) = map Math_fround zs"
  by (induction ps zs rule: list_induct2') (auto simp: setZs_def getZ_def)


lemma positions_update [simp]: "positions (g\<lparr> attributes_position := Some ps \<rparr>) = ps"
  by (simp add: positions_def)

lemma terrainMesh_rebuildBase: "terrainMesh (rebuildBase env t s) = terrainMesh s"
  by (simp add: rebuildBase_def Let_def)

lemma validateGrid_None:
  "validateGrid lat lon g = None \<longleftrightarrow>
     2 \<le> length lat \<and> 2 \<le> length lon \<and> length g = length lat \<and> (\<forall>row \<in> set g. length row = length lon)"
  by (auto simp: validateGrid_def)

lemma vertexZ_in_range:
  assumes "i < (ws + 1) * length g"
  shows "vertexZ g ws mn zs i = Inr (num_mul (num_sub (ToNumber (js_at (g ! (i div (ws + 1))) (i mod (ws + 1)))) mn) zs)"
proof -
  have "i div (ws + 1) < length g"
    using assms by (simp add: less_mult_imp_div_less mult.commute)
  then show ?thesis by (simp add: vertexZ_def Let_def)
qed

lemma build_valid:
  assumes v: "validateGrid lat lon g = None"
  shows "fst (buildTerrainFromGrid env ui lat lon g opts s) = None"
    and "heightsOf (snd (buildTerrainFromGrid env ui lat lon g opts s)) =
           map (\<lambda>i. heightAt g (length lon) (i div length lon) (i mod length lon))
             [0..<length lat * length lon]"
proof -
  from v have len: "2 \<le> length lat" "2 \<le> length lon" "length g = length lat"
    by (simp_all add: validateGrid_None)
  let ?ws = "length lon - Suc 0" and ?hs = "length lat - Suc 0"
  let ?mn = "fst (elevMinMax g (length lon))" and ?mx = "snd (elevMinMax g (length lon))"
  let ?z = "num_div (double (3/10)) (Math_max (num_sub ?mx ?mn) (double (1/1000000)))"
  let ?n = "length lat * length lon"
  let ?raw = "\<lambda>i. num_mul (num_sub (ToNumber (js_at (g ! (i div length lon)) (i mod length lon))) ?mn) ?z"
  have ws: "?ws + 1 = length lon" and hs: "?hs + 1 = length lat" using len by simp_all
  have n: "length (positions (PlaneGeometry a b ?ws ?hs)) = ?n" for a b
    using ws hs by (simp add: length_PlaneGeometry mult.commute)
  have seq: "sequenceE (map (vertexZ g ?ws ?mn ?z) [0..<?n]) = Inr (map ?raw [0..<?n])"
  proof (rule sequenceE_map_Inr)
    fix i assume "i \<in> set [0..<?n]"
    then have "i < (?ws + 1) * length g" using ws len by (simp add: mult.commute)
    from vertexZ_in_range[OF this] show "vertexZ g ?ws ?mn ?z i = Inr (?raw i)"
      using ws by simp
  qed
  have rounded: "map Math_fround (map ?raw [0..<?n]) =
      map (\<lambda>i. heightAt g (length lon) (i div length lon) (i mod length lon)) [0..<?n]"
    by (simp add: heightAt_def Let_def)
  show "fst (buildTerrainFromGrid env ui lat lon g opts s) = None"
    using v len by (simp add: buildTerrainFromGrid_def Let_def n seq)
  show "heightsOf (snd (buildTerrainFromGrid env ui lat lon g opts s)) =
           map (\<lambda>i. heightAt g (length lon) (i div length lon) (i mod length lon)) [0..<?n]"
    using v len rounded
    by (simp add: buildTerrainFromGrid_def Let_def n seq heightsOf_def terrainMesh_rebuildBase
          getZ_setZs)
qed

lemma finOf_Fin: "finOf (Num (Fin r)) = r"
  by (simp add: finOf_def)

lemma Number_isFinite_iff: "Number_isFinite v \<longleftrightarrow> (\<exists>r. v = Num (Fin r))"
proof (cases v)
  case Undefined
  then show ?thesis by simp
next
  case (Num n)
  then show ?thesis by (cases n) simp_all
qed

lemma row_read: "length row = n \<Longrightarrow> map (js_at row) [0..<n] = row"
  by (auto simp: js_at_def intro: nth_equalityI)

lemma elevScan_rows:
  "\<forall>row \<in> set g. length row = n \<Longrightarrow>
     fold (\<lambda>row acc. fold (\<lambda>colIndex. elevStep (js_at row colIndex)) [0..<n] acc) g acc =
     fold elevStep (concat g) acc"
proof (induction g arbitrary: acc)
  case Nil
  then show ?case by simp
next
  case (Cons row g)
  have "fold (\<lambda>colIndex. elevStep (js_at row colIndex)) [0..<n] acc =
        fold elevStep (map (js_at row) [0..<n]) acc"
    by (simp add: fold_map comp_def)
  also have "\<dots> = fold elevStep row acc"
    using Cons.prems by (simp add: row_read)
  finally show ?case using Cons by simp
qed

lemma elevScan_concat:
  "\<forall>row \<in> set g. length row = n \<Longrightarrow> elevScan g n = fold elevStep (concat g) (PInf, NInf)"
  by (simp add: elevScan_def elevScan_rows)

lemma scan_finite:
  "\<forall>v \<in> set vs. Number_isFinite v \<Longrightarrow>
     fold elevStep vs (Fin a, Fin b) =
       (Fin (fold min (map finOf vs) a), Fin (fold max (map finOf vs) b))"
proof (induction vs arbitrary: a b)
  case Nil
  then show ?case by simp
next
  case (Cons v vs)
  then obtain r where v: "v = Num (Fin r)" by (auto simp: Number_isFinite_iff)
  have "elevStep v (Fin a, Fin b) = (Fin (min (finOf v) a), Fin (max (finOf v) b))"
    by (auto simp: v finOf_Fin elevStep_def minMaxStep_def min_def max_def)
  then show ?case using Cons by simp
qed

lemma scan_finite_start:
  assumes "\<forall>v \<in> set vs. Number_isFinite v" and "vs \<noteq> []"
  shows "fold elevStep vs (PInf, NInf) =
           (Fin (Min (set (map finOf vs))), Fin (Max (set (map finOf vs))))"
proof -
  obtain v vs' where vs: "vs = v # vs'" using assms(2) by (cases vs) auto
  then obtain r where v: "v = Num (Fin r)" using assms(1) by (auto simp: Number_isFinite_iff)
  have "elevStep v (PInf, NInf) = (Fin (finOf v), Fin (finOf v))"
    by (simp add: v finOf_Fin elevStep_def minMaxStep_def)
  then have "fold elevStep vs (PInf, NInf) = fold elevStep vs' (Fin (finOf v), Fin (finOf v))"
    by (simp add: vs)
  also have "\<dots> = (Fin (fold min (map finOf vs') (finOf v)), Fin (fold max (map finOf vs') (finOf v)))"
    using assms(1) vs by (intro scan_finite) simp
  also have "\<dots> = (Fin (Min (set (map finOf vs))), Fin (Max (set (map finOf vs))))"
    unfolding vs list.map by (simp only: Min.set_eq_fold Max.set_eq_fold)
  finally show ?thesis .
qed

lemma div_mod_index:
  "ix < n \<Longrightarrow> (iy * n + ix) div n = iy \<and> (iy * n + ix) mod n = (ix::nat)"
  by simp

lemma index_in_range: "iy < L \<Longrightarrow> ix < n \<Longrightarrow> iy * n + ix < L * (n::nat)"
proof -
  assume a: "iy < L" "ix < n"
  then have "iy * n + ix < iy * n + n" by simp
  also have "\<dots> = Suc iy * n" by simp
  also have "\<dots> \<le> L * n" using a(1) by (intro mult_le_mono1) simp
  finally show ?thesis .
qed
lemma finite_grid_minmax:
  assumes valid: "validateGrid lat lon g = None"
      and fin: "\<forall>row \<in> set g. \<forall>v \<in> set row. Number_isFinite v"
  shows "elevMinMax g (length lon) =
           (Fin (Min (set (map finOf (concat g)))), Fin (Max (set (map finOf (concat g)))))"
proof -
  from valid have len: "2 \<le> length lat" "2 \<le> length lon" "length g = length lat"
    and rows: "\<forall>row \<in> set g. length row = length lon"
    by (simp_all add: validateGrid_None)
  obtain row g' where g: "g = row # g'" using len by (cases g) auto
  then have "length row = length lon" using rows by simp
  then have "row \<noteq> []" using len by auto
  then have ne: "concat g \<noteq> []" by (simp add: g)
  have allfin: "\<forall>v \<in> set (concat g). Number_isFinite v" using fin by auto
  show ?thesis
    by (simp add: elevMinMax_def elevScan_concat[OF rows] scan_finite_start[OF allfin ne])
qed


lemma attributes_position_PlaneGeometry: "attributes_position (PlaneGeometry w h ws hs) \<noteq> None"
  by (simp add: PlaneGeometry_def Let_def)




lemma vertexZ_all:
  assumes v: "validateGrid lat lon g = None"
  shows "sequenceE (map (vertexZ g (length lon - Suc 0) mn z)
                      [0..<length (positions (PlaneGeometry a b (length lon - Suc 0) (length lat - Suc 0)))]) =
         Inr (map (\<lambda>i. num_mul (num_sub (ToNumber (js_at (g ! (i div length lon)) (i mod length lon))) mn) z)
                [0..<length lat * length lon])"
proof -
  from v have len: "2 \<le> length lat" "2 \<le> length lon" "length g = length lat"
    by (simp_all add: validateGrid_None)
  let ?ws = "length lon - Suc 0" and ?hs = "length lat - Suc 0"
  let ?n = "length lat * length lon"
  have ws: "?ws + 1 = length lon" and hs: "?hs + 1 = length lat" using len by simp_all
  have n: "length (positions (PlaneGeometry a b ?ws ?hs)) = ?n"
    using ws hs by (simp add: length_PlaneGeometry mult.commute)
  show ?thesis
    unfolding n
  proof (rule sequenceE_map_Inr)
    fix i assume "i \<in> set [0..<?n]"
    then have "i < (?ws + 1) * length g" using ws len by (simp add: mult.commute)
    from vertexZ_in_range[OF this]
    show "vertexZ g ?ws mn z i =
            Inr (num_mul (num_sub (ToNumber (js_at (g ! (i div length lon)) (i mod length lon))) mn) z)"
      using ws by simp
  qed
qed


lemma rebuildBase_builds:
  assumes "terrainMesh s \<noteq> None" "isFinite t" "num_less (Fin 0) t"
      and "isFinite (getX (bmin (setFromObject env (terrainGroupScale s) (terrainMesh s))))"
      and "isFinite (getY (bmin (setFromObject env (terrainGroupScale s) (terrainMesh s))))"
      and "isFinite (getZ (bmin (setFromObject env (terrainGroupScale s) (terrainMesh s))))"
  shows "\<exists>b. baseMesh (rebuildBase env t s) = Some b"
proof -
  obtain r where "t = Fin r" "0 < r" using assms(2,3) by (auto simp: isFinite_iff)
  then have "\<not> num_le t (Fin 0)" by (simp add: num_le_Fin)
  then show ?thesis using assms by (simp add: rebuildBase_def Let_def)
qed



lemma getBaseThicknessValue_cong:
  "currentBaseThickness x = currentBaseThickness y \<Longrightarrow>
     getBaseThicknessValue ui x = getBaseThicknessValue ui y"
  by (simp add: getBaseThicknessValue_def split: option.splits)

lemma getBaseThicknessValue_updates:
  "getBaseThicknessValue ui (clearModel x) = getBaseThicknessValue ui x"
  "getBaseThicknessValue ui (x\<lparr> terrainMesh := a \<rparr>) = getBaseThicknessValue ui x"
  "getBaseThicknessValue ui (x\<lparr> terrainGroupScale := b \<rparr>) = getBaseThicknessValue ui x"
  "getBaseThicknessValue ui (x\<lparr> currentDownloadBaseName := c \<rparr>) = getBaseThicknessValue ui x"
  "getBaseThicknessValue ui (x\<lparr> currentSourceLabel := d \<rparr>) = getBaseThicknessValue ui x"
  "getBaseThicknessValue ui (x\<lparr> loadStatus := e \<rparr>) = getBaseThicknessValue ui x"
  by (rule getBaseThicknessValue_cong, simp add: clearModel_def)+

lemma build_base_present:
  assumes v: "validateGrid lat lon g = None"
      and t: "isFinite (getBaseThicknessValue ui s)" "num_less (Fin 0) (getBaseThicknessValue ui s)"
      and box: "\<And>sc m. isFinite (getX (bmin (setFromObject env sc m))) \<and>
                        isFinite (getY (bmin (setFromObject env sc m))) \<and>
                        isFinite (getZ (bmin (setFromObject env sc m)))"
  shows "baseMesh (snd (buildTerrainFromGrid env ui lat lon g opts s)) \<noteq> None"
proof -
  from v have len: "2 \<le> length lat" "2 \<le> length lon" by (simp_all add: validateGrid_None)
  have b: "isFinite (getX (bmin (setFromObject env sc m)))"
          "isFinite (getY (bmin (setFromObject env sc m)))"
          "isFinite (getZ (bmin (setFromObject env sc m)))" for sc m
    using box[of sc m] by simp_all
  show ?thesis
    using v len t
    by (simp add: buildTerrainFromGrid_def Let_def vertexZ_all[OF v] rebuildBase_builds
          getBaseThicknessValue_updates b)
qed

lemma num_sub_Fin: "num_sub (Fin a) (Fin b) = double (a - b)"
  by (simp add: num_sub_def)

lemma Math_max_Fin: "Math_max (Fin a) (Fin b) = Fin (max a b)"
  by (auto simp: Math_max_def max_def)

text \<open>The scale factor: finite, not negative, and close to \<open>0.3 / range\<close>.\<close>

lemma zScale_close:
  assumes "4722366482869645 / 4722366482869645213696 < \<rho>" "\<rho> < 2 powi 1024"
  shows "\<exists>\<kappa>. double (5404319552844595 / 18014398509481984 / \<rho>) = Fin \<kappa> \<and> 0 \<le> \<kappa> \<and>
             \<bar>\<rho> * \<kappa> - 5404319552844595 / 18014398509481984\<bar> \<le> 2 powi (- 50)"
proof -
  let ?d = "5404319552844595 / 18014398509481984 :: real"
  let ?t = "?d / \<rho>"
  have pos: "0 < \<rho>" using assms(1) by simp
  have t0: "0 \<le> ?t" using pos by simp
  have "?d \<le> 2 powi 19 * \<rho>" using assms(1) by simp
  then have t1: "?t \<le> 2 powi 19" using pos by (simp add: divide_le_eq)
  from double_finite[OF t0 t1] obtain \<kappa> where k: "double ?t = Fin \<kappa>" "0 \<le> \<kappa>" by auto
  from double_err[OF k(1)] have "\<bar>\<kappa> - ?t\<bar> \<le> ?t * 2 powi (- 53) + 2 powi (- 1075)"
    using t0 by simp
  then have "\<rho> * \<bar>\<kappa> - ?t\<bar> \<le> \<rho> * (?t * 2 powi (- 53) + 2 powi (- 1075))"
    using pos by (intro mult_left_mono) simp_all
  moreover have "\<rho> * \<bar>\<kappa> - ?t\<bar> = \<bar>\<rho> * \<kappa> - ?d\<bar>"
  proof -
    have "\<rho> * \<bar>\<kappa> - ?t\<bar> = \<bar>\<rho> * (\<kappa> - ?t)\<bar>" using pos by (simp add: abs_mult)
    also have "\<rho> * (\<kappa> - ?t) = \<rho> * \<kappa> - ?d" using pos by (simp add: algebra_simps)
    finally show ?thesis .
  qed
  moreover have "\<rho> * (?t * 2 powi (- 53) + 2 powi (- 1075)) = ?d * 2 powi (- 53) + \<rho> * 2 powi (- 1075)"
    using pos by (simp add: algebra_simps)
  moreover have "\<rho> * 2 powi (- 1075) \<le> 2 powi 1024 * 2 powi (- 1075)"
    using assms(2) by (intro mult_right_mono) simp_all
  moreover have "(2::real) powi 1024 * 2 powi (- 1075) = 2 powi (- 51)"
    using pow2_add[of 1024 "- 1075"] by simp
  moreover have "?d * 2 powi (- 53) + 2 powi (- 51) \<le> (2::real) powi (- 50)" by simp
  ultimately have "\<bar>\<rho> * \<kappa> - ?d\<bar> \<le> 2 powi (- 50)" by linarith
  then show ?thesis using k by blast
qed

text \<open>A product that close to \<open>0.3\<close> is stored as the single-precision number nearest \<open>0.3\<close>.\<close>

lemma fround_near_3_10:
  assumes "\<bar>\<pi> - 5404319552844595 / 18014398509481984\<bar> \<le> 2 powi (- 50)"
  shows "Math_fround (double \<pi>) = Fin (10066330 / 33554432)"
proof -
  let ?d = "5404319552844595 / 18014398509481984 :: real"
  have b: "?d - 1 / 2 ^ 50 \<le> \<pi>" "\<pi> \<le> ?d + 1 / 2 ^ 50" using assms unfolding abs_le_iff by simp_all
  have p0: "0 \<le> \<pi>" using b(1) by simp
  have p1: "\<pi> \<le> 2 powi 0" using b(2) by simp
  from double_finite[OF p0 p1] obtain y where y: "double \<pi> = Fin y" by auto
  from double_err[OF y] have "\<bar>y - \<pi>\<bar> \<le> \<pi> * (1 / 2 ^ 53) + 1 / 2 ^ 1075" using p0 by simp
  moreover have "\<pi> * (1 / 2 ^ 53) \<le> 1 * (1 / 2 ^ 53)" using p1 by (intro mult_right_mono) simp_all
  moreover have "(1::real) / 2 ^ 1075 \<le> 1 / 2 ^ 53" by simp
  ultimately have e: "\<bar>y - \<pi>\<bar> \<le> 2 / 2 ^ 53" by linarith
  have yb: "?d - 1 / 2 ^ 49 \<le> y" "y \<le> ?d + 1 / 2 ^ 49" using e b unfolding abs_le_iff by simp_all
  have "float32 y = Fin (of_int 10066330 * (1 / 33554432))"
  proof (rule float32_eqI[where E = "- 2"])
    show "0 < y" using yb(1) by simp
    show "y < 2 powi (- 2 + 1)" using yb(2) by simp
    show "- 2 = - 126 \<or> 2 powi (- 2) \<le> y" using yb(1) by simp
    show "(1::real) / 33554432 = 2 powi (- 2 - 23)" by simp
    show "\<bar>y / (1 / 33554432) - of_int 10066330\<bar> < 1 / 2" using yb unfolding abs_less_iff by simp
  qed simp_all
  then show ?thesis by (simp add: y)
qed


text \<open>
  The heights of a grid whose finite range is above the floor: 0 at a lowest cell, the
  single-precision \<open>0.3\<close> at a highest cell, and between the two elsewhere.
\<close>

lemma heightAt_finite_range:
  assumes mm: "elevMinMax g n = (Fin m, Fin M)"
      and rho: "num_sub (Fin M) (Fin m) = Fin \<rho>"
      and eps: "num_less (double (1 / 1000000)) (Fin \<rho>)"
      and cell: "js_at (g ! iy) ix = Num (Fin r)"
  shows "heightAt g n iy ix =
           Math_fround (num_mul (num_sub (Fin r) (Fin m))
                          (num_div (double (3 / 10)) (num_sub (Fin M) (Fin m))))"
    and "r = m \<Longrightarrow> heightAt g n iy ix = Fin 0"
    and "r = M \<Longrightarrow> heightAt g n iy ix = Fin (10066330 / 33554432)"
    and "m \<le> r \<Longrightarrow> r \<le> M \<Longrightarrow>
           \<exists>h. heightAt g n iy ix = Fin h \<and> 0 \<le> h \<and> h \<le> 10066330 / 33554432"
proof -
  let ?d = "5404319552844595 / 18014398509481984 :: real"
  have epsr: "4722366482869645 / 4722366482869645213696 < \<rho>" using eps by (simp add: double_1e6)
  have dM: "double (M - m) = Fin \<rho>" using rho by (simp add: num_sub_Fin)
  have rb: "\<rho> < 2 powi 1024" using double_bound[OF dM] by simp
  from zScale_close[OF epsr rb] obtain \<kappa> where k: "double (?d / \<rho>) = Fin \<kappa>" "0 \<le> \<kappa>"
      "\<bar>\<rho> * \<kappa> - ?d\<bar> \<le> 2 powi (- 50)" by blast
  have rng: "Math_max (Fin \<rho>) (double (1 / 1000000)) = Fin \<rho>"
    using epsr by (simp add: double_1e6 Math_max_Fin)
  have sc: "num_div (double (3 / 10)) (Fin \<rho>) = Fin \<kappa>"
    using epsr k(1) by (simp add: double_3_10)
  have h: "heightAt g n iy ix = Math_fround (num_mul (double (r - m)) (Fin \<kappa>))"
    by (simp add: heightAt_def mm cell num_sub_Fin dM rng sc)
  show "heightAt g n iy ix =
           Math_fround (num_mul (num_sub (Fin r) (Fin m))
                          (num_div (double (3 / 10)) (num_sub (Fin M) (Fin m))))"
    by (simp add: h num_sub_Fin dM sc)
  show "heightAt g n iy ix = Fin 0" if "r = m"
    using that by (simp add: h double_zero float32_zero)
  have top: "Math_fround (double (\<rho> * \<kappa>)) = Fin (10066330 / 33554432)"
    by (rule fround_near_3_10[OF k(3)])
  show "heightAt g n iy ix = Fin (10066330 / 33554432)" if "r = M"
    using that top by (simp add: h dM)
  show "\<exists>h. heightAt g n iy ix = Fin h \<and> 0 \<le> h \<and> h \<le> 10066330 / 33554432"
    if "m \<le> r" "r \<le> M"
  proof -
    have "num_le (Fin 0) (double (r - m))" using double_mono[of 0 "r - m"] that(1) by (simp add: double_zero)
    moreover have "num_le (double (r - m)) (Fin \<rho>)" using double_mono[of "r - m" "M - m"] that(2) by (simp add: dM)
    ultimately obtain \<alpha> where a: "double (r - m) = Fin \<alpha>" "0 \<le> \<alpha>" "\<alpha> \<le> \<rho>"
      using num_le_Fin_finite by blast
    obtain y where y: "double (\<rho> * \<kappa>) = Fin y" "float32 y = Fin (10066330 / 33554432)"
      using top by (cases "double (\<rho> * \<kappa>)") simp_all
    have "0 \<le> \<alpha> * \<kappa>" using a(2) k(2) by simp
    then have "num_le (Fin 0) (double (\<alpha> * \<kappa>))" using double_mono[of 0 "\<alpha> * \<kappa>"] by (simp add: double_zero)
    moreover have "\<alpha> * \<kappa> \<le> \<rho> * \<kappa>" using a(3) k(2) by (intro mult_right_mono)
    then have "num_le (double (\<alpha> * \<kappa>)) (Fin y)" using double_mono[of "\<alpha> * \<kappa>" "\<rho> * \<kappa>"] by (simp add: y(1))
    ultimately obtain \<beta> where b: "double (\<alpha> * \<kappa>) = Fin \<beta>" "0 \<le> \<beta>" "\<beta> \<le> y"
      using num_le_Fin_finite by blast
    have "num_le (Fin 0) (float32 \<beta>)" using float32_mono[of 0 \<beta>] b(2) by (simp add: float32_zero)
    moreover have "num_le (float32 \<beta>) (Fin (10066330 / 33554432))"
      using float32_mono[of \<beta> y] b(3) by (simp add: y(2))
    ultimately obtain t where "float32 \<beta> = Fin t" "0 \<le> t" "t \<le> 10066330 / 33554432"
      using num_le_Fin_finite by blast
    then show ?thesis by (simp add: h a(1) b(1))
  qed
qed

lemma fround_3_10: "Math_fround (double (3 / 10)) = Fin (10066330 / 33554432)"
proof -
  have "Math_fround (double (5404319552844595 / 18014398509481984)) = Fin (10066330 / 33554432)"
    by (rule fround_near_3_10) simp
  moreover have "double (5404319552844595 / 18014398509481984) = double (3 / 10)"
    using double_id[OF double_rep[OF double_3_10]] by (simp add: double_3_10)
  ultimately show ?thesis by simp
qed


text \<open>
  Claim C1, as amended. For every valid grid (at least two latitudes and two longitudes, a
  rectangular elevation grid) whose elevations are all finite and whose range
  \<open>maxElev - minElev\<close>, as the doubles give it, is finite and above the floor of \<open>1e-6\<close>,
  \<open>buildTerrainFromGrid\<close> raises nothing, \<open>minElev\<close> and \<open>maxElev\<close> are the least and the
  greatest elevation, and the vertex of row \<open>iy\<close> and column \<open>ix\<close> holds the height
  \<open>(elevation[iy][ix] - minElev) * (0.3 / elevRange)\<close>, computed in doubles and stored in
  single precision. The least height is 0 and the greatest is \<open>0.3\<close> rounded to single
  precision, which is \<open>10066330 / 2 ^ 25\<close>.
\<close>

theorem height_normalization:
  assumes valid: "validateGrid lat lon g = None"
      and fin: "\<forall>row \<in> set g. \<forall>v \<in> set row. Number_isFinite v"
      and range: "num_less (double (1 / 1000000))
                    (num_sub (snd (elevMinMax g (length lon))) (fst (elevMinMax g (length lon))))"
      and finite: "isFinite (num_sub (snd (elevMinMax g (length lon)))
                                      (fst (elevMinMax g (length lon))))"
  shows "let r = buildTerrainFromGrid env ui lat lon g opts s;
             hs = heightsOf (snd r);
             minElev = fst (elevMinMax g (length lon));
             maxElev = snd (elevMinMax g (length lon))
         in fst r = None \<and>
            isMinOf minElev (map ToNumber (concat g)) \<and>
            isMaxOf maxElev (map ToNumber (concat g)) \<and>
            length hs = length lat * length lon \<and>
            (\<forall>iy < length lat. \<forall>ix < length lon.
               hs ! (iy * length lon + ix) =
                 Math_fround (num_mul (num_sub (ToNumber (g ! iy ! ix)) minElev)
                                (num_div (double (3 / 10)) (num_sub maxElev minElev)))) \<and>
            isMinOf (Fin 0) hs \<and> isMaxOf (Math_fround (double (3 / 10))) hs \<and>
            Math_fround (double (3 / 10)) = Fin (10066330 / 2 ^ 25)"
proof -
  let ?n = "length lon" and ?L = "length lat"
  let ?vs = "concat g"
  let ?rs = "map finOf ?vs"
  let ?m = "Min (set ?rs)" and ?M = "Max (set ?rs)"
  let ?hs = "heightsOf (snd (buildTerrainFromGrid env ui lat lon g opts s))"
  let ?top = "Fin (10066330 / 33554432)"
  from valid have len: "2 \<le> ?L" "2 \<le> ?n" "length g = ?L"
    and rows: "\<forall>row \<in> set g. length row = ?n"
    by (simp_all add: validateGrid_None)
  have mm: "elevMinMax g ?n = (Fin ?m, Fin ?M)"
    by (rule finite_grid_minmax[OF valid fin])
  obtain \<rho> where rho: "num_sub (Fin ?M) (Fin ?m) = Fin \<rho>"
    using finite by (auto simp: mm isFinite_iff)
  have eps: "num_less (double (1 / 1000000)) (Fin \<rho>)"
    using range unfolding mm fst_conv snd_conv rho .
  have allfin: "\<forall>v \<in> set ?vs. Number_isFinite v" using fin by auto
  have conv: "\<forall>v \<in> set ?vs. ToNumber v = Fin (finOf v)"
  proof
    fix v assume "v \<in> set ?vs"
    then obtain r where "v = Num (Fin r)" using allfin by (auto simp: Number_isFinite_iff)
    then show "ToNumber v = Fin (finOf v)" by (simp add: finOf_Fin)
  qed
  obtain row g' where g: "g = row # g'" using len by (cases g) auto
  then have "length row = ?n" using rows by simp
  then have "row \<noteq> []" using len by auto
  then have ne: "set ?rs \<noteq> {}" by (simp add: g)
  have m_in: "?m \<in> set ?rs" and M_in: "?M \<in> set ?rs"
    using ne by (auto intro: Min_in Max_in)
  have m_le: "\<And>r. r \<in> set ?rs \<Longrightarrow> ?m \<le> r" and le_M: "\<And>r. r \<in> set ?rs \<Longrightarrow> r \<le> ?M"
    by (auto intro: Min_le Max_ge)
  have hs: "?hs = map (\<lambda>i. heightAt g ?n (i div ?n) (i mod ?n)) [0..<?L * ?n]"
    by (rule build_valid(2)[OF valid])
  have cell: "g ! iy ! ix \<in> set ?vs \<and> js_at (g ! iy) ix = Num (Fin (finOf (g ! iy ! ix)))
              \<and> ToNumber (g ! iy ! ix) = Fin (finOf (g ! iy ! ix))"
    if "iy < ?L" "ix < ?n" for iy ix
  proof -
    have r: "g ! iy \<in> set g" using that len by simp
    moreover from this have "g ! iy ! ix \<in> set (g ! iy)" using rows that by simp
    ultimately have a: "g ! iy ! ix \<in> set ?vs" by auto
    then have b: "ToNumber (g ! iy ! ix) = Fin (finOf (g ! iy ! ix))" using conv by blast
    have "js_at (g ! iy) ix = g ! iy ! ix" using r rows that by (simp add: js_at_def)
    moreover obtain x where "g ! iy ! ix = Num (Fin x)" using a allfin by (auto simp: Number_isFinite_iff)
    ultimately show ?thesis using a b by (simp add: finOf_Fin)
  qed
  note H = heightAt_finite_range[OF mm rho eps]
  have nth: "?hs ! (iy * ?n + ix) = heightAt g ?n iy ix" if "iy < ?L" "ix < ?n" for iy ix
    using that index_in_range[OF that] div_mod_index[OF that(2), of iy] by (simp add: hs)
  have ex_cell: "\<exists>iy < ?L. \<exists>ix < ?n. finOf (g ! iy ! ix) = r" if "r \<in> set ?rs" for r
  proof -
    from that obtain v where "v \<in> set ?vs" "finOf v = r" by auto
    then obtain rw where rw: "rw \<in> set g" "v \<in> set rw" by auto
    then obtain iy where iy: "iy < length g" "g ! iy = rw" by (auto simp: in_set_conv_nth)
    from rw obtain ix where ix: "ix < length rw" "rw ! ix = v" by (auto simp: in_set_conv_nth)
    show ?thesis using iy ix rw rows len \<open>finOf v = r\<close> by auto
  qed
  have in_hs: "\<exists>iy < ?L. \<exists>ix < ?n. finOf (g ! iy ! ix) = r \<and> heightAt g ?n iy ix \<in> set ?hs"
    if "r \<in> set ?rs" for r
  proof -
    from ex_cell[OF that] obtain iy ix where c: "iy < ?L" "ix < ?n" "finOf (g ! iy ! ix) = r"
      by blast
    have "iy * ?n + ix < length ?hs" using index_in_range[OF c(1,2)] by (simp add: hs)
    then have "?hs ! (iy * ?n + ix) \<in> set ?hs" by (rule nth_mem)
    then show ?thesis using nth[OF c(1,2)] c by auto
  qed
  have all_hs: "\<exists>iy < ?L. \<exists>ix < ?n. h = heightAt g ?n iy ix" if "h \<in> set ?hs" for h
  proof -
    from that obtain i where i: "i < ?L * ?n" "h = heightAt g ?n (i div ?n) (i mod ?n)"
      by (auto simp: hs)
    have "0 < ?n" using len(2) by linarith
    then have d: "i div ?n < ?L" "i mod ?n < ?n"
      using i(1) by (simp_all add: less_mult_imp_div_less)
    then show ?thesis using i(2) by blast
  qed
  have bounds: "num_le (Fin 0) h \<and> num_le h ?top" if "h \<in> set ?hs" for h
  proof -
    from all_hs[OF that] obtain iy ix where c: "iy < ?L" "ix < ?n" "h = heightAt g ?n iy ix"
      by blast
    from cell[OF c(1,2)] have a: "js_at (g ! iy) ix = Num (Fin (finOf (g ! iy ! ix)))"
      and b: "finOf (g ! iy ! ix) \<in> set ?rs" by auto
    from H(4)[OF a m_le[OF b] le_M[OF b]] show ?thesis by (auto simp: c(3) num_le_Fin)
  qed
  have min0: "isMinOf (Fin 0) ?hs"
    unfolding isMinOf_def
  proof
    from in_hs[OF m_in] obtain iy ix where c: "iy < ?L" "ix < ?n" "finOf (g ! iy ! ix) = ?m"
      "heightAt g ?n iy ix \<in> set ?hs" by blast
    from cell[OF c(1,2)] have "js_at (g ! iy) ix = Num (Fin (finOf (g ! iy ! ix)))" by simp
    from H(2)[OF this c(3)] c(4) show "Fin 0 \<in> set ?hs" by simp
    show "\<forall>h \<in> set ?hs. num_le (Fin 0) h" using bounds by blast
  qed
  have maxtop: "isMaxOf ?top ?hs"
    unfolding isMaxOf_def
  proof
    from in_hs[OF M_in] obtain iy ix where c: "iy < ?L" "ix < ?n" "finOf (g ! iy ! ix) = ?M"
      "heightAt g ?n iy ix \<in> set ?hs" by blast
    from cell[OF c(1,2)] have "js_at (g ! iy) ix = Num (Fin (finOf (g ! iy ! ix)))" by simp
    from H(3)[OF this c(3)] c(4) show "?top \<in> set ?hs" by simp
    show "\<forall>h \<in> set ?hs. num_le h ?top" using bounds by blast
  qed
  have tonum: "map ToNumber ?vs = map Fin ?rs" using conv by simp
  have minE: "isMinOf (Fin ?m) (map ToNumber ?vs)"
    unfolding tonum isMinOf_def using m_in m_le by (auto simp: num_le_Fin)
  have maxE: "isMaxOf (Fin ?M) (map ToNumber ?vs)"
    unfolding tonum isMaxOf_def using M_in le_M by (auto simp: num_le_Fin)
  have formula: "?hs ! (iy * ?n + ix) =
      Math_fround (num_mul (num_sub (ToNumber (g ! iy ! ix)) (Fin ?m))
                     (num_div (double (3 / 10)) (num_sub (Fin ?M) (Fin ?m))))"
    if "iy < ?L" "ix < ?n" for iy ix
  proof -
    from cell[OF that] have a: "js_at (g ! iy) ix = Num (Fin (finOf (g ! iy ! ix)))"
      and b: "ToNumber (g ! iy ! ix) = Fin (finOf (g ! iy ! ix))" by auto
    show ?thesis unfolding nth[OF that] b by (rule H(1)[OF a])
  qed
  have lenhs: "length ?hs = ?L * ?n" by (simp add: hs)
  have t: "Math_fround (double (3 / 10)) = ?top" by (rule fround_3_10)
  have t2: "Math_fround (double (3 / 10)) = Fin (10066330 / 2 ^ 25)" by (simp add: t)
  show ?thesis
    unfolding Let_def mm fst_conv snd_conv t
    using build_valid(1)[OF valid] minE maxE lenhs formula min0 maxtop t2[unfolded t] by blast
qed

lemma exGrid_minmax: "elevMinMax exGrid (length exLon) = (Fin 0, Fin 10)"
  by (simp add: exGrid_def exLon_def elevMinMax_def elevScan_def elevStep_def minMaxStep_def
        js_at_def upt_rec)

lemma exGrid_valid: "validateGrid exLat exLon exGrid = None"
  by (simp add: validateGrid_def exLat_def exLon_def exGrid_def)

theorem height_normalization_witness:
  "validateGrid exLat exLon exGrid = None \<and>
   list_all (list_all Number_isFinite) exGrid \<and>
   num_less (double (1 / 1000000))
     (num_sub (snd (elevMinMax exGrid (length exLon))) (fst (elevMinMax exGrid (length exLon)))) \<and>
   isFinite (num_sub (snd (elevMinMax exGrid (length exLon))) (fst (elevMinMax exGrid (length exLon)))) \<and>
   (let r = buildTerrainFromGrid exThree noControls exLat exLon exGrid sampleOptions startScene;
        hs = heightsOf (snd r);
        minElev = fst (elevMinMax exGrid (length exLon));
        maxElev = snd (elevMinMax exGrid (length exLon))
    in fst r = None \<and>
       isMinOf minElev (map ToNumber (concat exGrid)) \<and>
       isMaxOf maxElev (map ToNumber (concat exGrid)) \<and>
       length hs = length exLat * length exLon \<and>
       (\<forall>iy < length exLat. \<forall>ix < length exLon.
          hs ! (iy * length exLon + ix) =
            Math_fround (num_mul (num_sub (ToNumber (exGrid ! iy ! ix)) minElev)
                           (num_div (double (3 / 10)) (num_sub maxElev minElev)))) \<and>
       isMinOf (Fin 0) hs \<and> isMaxOf (Math_fround (double (3 / 10))) hs \<and>
       Math_fround (double (3 / 10)) = Fin (10066330 / 2 ^ 25))"
proof -
  have h1: "validateGrid exLat exLon exGrid = None" by (rule exGrid_valid)
  have h2: "\<forall>row \<in> set exGrid. \<forall>v \<in> set row. Number_isFinite v"
    by (simp add: exGrid_def)
  have h3: "num_less (double (1 / 1000000))
     (num_sub (snd (elevMinMax exGrid (length exLon))) (fst (elevMinMax exGrid (length exLon))))"
    by (simp add: exGrid_minmax num_sub_Fin double_1e6)
  have h4: "isFinite (num_sub (snd (elevMinMax exGrid (length exLon))) (fst (elevMinMax exGrid (length exLon))))"
    by (simp add: exGrid_minmax num_sub_Fin)
  have h2': "list_all (list_all Number_isFinite) exGrid"
    by (simp add: exGrid_def)
  from h1 h2' h3 h4 height_normalization[OF h1 h2 h3 h4] show ?thesis by blast
qed

text \<open>
  Against claim C1 as stated: on the grid \<open>[[0, 10], [10, 0]]\<close> the two highest vertices
  hold \<open>10066330 / 2 ^ 25\<close>, which is \<open>0.300000011920928955078125\<close>, and not the double
  \<open>0.3\<close>.
\<close>

theorem height_normalization_counterexample:
  "validateGrid exLat exLon exGrid = None \<and>
   list_all (list_all Number_isFinite) exGrid \<and>
   num_sub (snd (elevMinMax exGrid (length exLon))) (fst (elevMinMax exGrid (length exLon))) = Fin 10 \<and>
   heightsOf (snd (buildTerrainFromGrid exThree noControls exLat exLon exGrid sampleOptions startScene)) =
     [Fin 0, Fin (10066330 / 2 ^ 25), Fin (10066330 / 2 ^ 25), Fin 0] \<and>
   double (3 / 10) = Fin (5404319552844595 / 2 ^ 54) \<and>
   \<not> isMaxOf (double (3 / 10))
       (heightsOf (snd (buildTerrainFromGrid exThree noControls exLat exLon exGrid sampleOptions startScene)))"
proof -
  have rho: "num_sub (Fin 10) (Fin 0) = Fin 10" by (simp add: num_sub_Fin)
  have eps: "num_less (double (1 / 1000000)) (Fin 10)" by (simp add: double_1e6)
  note H = heightAt_finite_range[OF exGrid_minmax rho eps]
  have c: "js_at (exGrid ! 0) 0 = Num (Fin 0)" "js_at (exGrid ! 0) 1 = Num (Fin 10)"
          "js_at (exGrid ! 1) 0 = Num (Fin 10)" "js_at (exGrid ! 1) 1 = Num (Fin 0)"
    by (simp_all add: exGrid_def js_at_def)
  have hts: "heightAt exGrid (length exLon) 0 0 = Fin 0"
            "heightAt exGrid (length exLon) 0 1 = Fin (10066330 / 33554432)"
            "heightAt exGrid (length exLon) 1 0 = Fin (10066330 / 33554432)"
            "heightAt exGrid (length exLon) 1 1 = Fin 0"
    using H(2)[OF c(1)] H(3)[OF c(2)] H(3)[OF c(3)] H(2)[OF c(4)] by simp_all
  have hs: "heightsOf (snd (buildTerrainFromGrid exThree noControls exLat exLon exGrid sampleOptions startScene)) =
     [Fin 0, Fin (10066330 / 33554432), Fin (10066330 / 33554432), Fin 0]"
  proof -
    have idx: "[0..<length exLat * length exLon] = [0, 1, 2, 3]"
      by (simp add: exLat_def exLon_def upt_rec)
    have dm: "(0::nat) div length exLon = 0" "(0::nat) mod length exLon = 0"
             "(1::nat) div length exLon = 0" "(1::nat) mod length exLon = 1"
             "(2::nat) div length exLon = 1" "(2::nat) mod length exLon = 0"
             "(3::nat) div length exLon = 1" "(3::nat) mod length exLon = 1"
    proof -
      have n: "length exLon = 2" by (simp add: exLon_def)
      show "(0::nat) div length exLon = 0" "(0::nat) mod length exLon = 0"
           "(1::nat) div length exLon = 0" "(1::nat) mod length exLon = 1"
           "(2::nat) div length exLon = 1" "(2::nat) mod length exLon = 0"
           "(3::nat) div length exLon = 1" "(3::nat) mod length exLon = 1"
        unfolding n by simp_all
    qed
    show ?thesis
      unfolding build_valid(2)[OF exGrid_valid] idx by (simp only: list.map dm hts)
  qed
  have "list_all (list_all Number_isFinite) exGrid" by (simp add: exGrid_def)
  moreover have "num_sub (snd (elevMinMax exGrid (length exLon))) (fst (elevMinMax exGrid (length exLon))) = Fin 10"
    by (simp add: exGrid_minmax rho)
  ultimately show ?thesis
    unfolding hs by (simp add: exGrid_valid double_3_10 isMaxOf_def)
qed

section \<open>Entries that are not finite\<close>









section \<open>Finding the coordinate variables\<close>

text \<open>
  Against claim C2 as stated: in a dataset that lists a variable \<open>y\<close> before a variable
  \<open>lat\<close>, the code resolves the latitude to \<open>y\<close>, although \<open>lat\<close> comes first in the
  candidate list.
\<close>

theorem priority_order_counterexample:
  "findVariable readerYLat LAT_CANDIDATES = Some varY \<and>
   findByPriority readerYLat LAT_CANDIDATES = Some varLat \<and>
   varY \<noteq> varLat"
  by (simp add: findVariable_def readerYLat_def varY_def varLat_def LAT_CANDIDATES_def
        toLowerCase_def lower_char_def)

lemma findVariable_find:
  "findVariable rd candidates = find (nameMatches candidates) (variables rd)"
proof -
  have "(\<lambda>v. toLowerCase (vname v) \<in> set (map toLowerCase candidates)) = nameMatches candidates"
    by (auto simp: nameMatches_def fun_eq_iff)
  then show ?thesis by (simp add: findVariable_def)
qed

lemma parseNetCDF_no_latlon:
  assumes "content file = Some rd"
      and "findVariable rd LAT_CANDIDATES = None \<or> findVariable rd LON_CANDIDATES = None"
  shows "parseNetCDF file = Inl LatLonNotFound"
  using assms by (auto simp: parseNetCDF_def split: option.splits)

text \<open>
  Claim C2, as amended. \<open>findVariable\<close> returns the first variable, in the order of the
  dataset, whose lowercased name is one of the lowercased candidate names, whatever the
  place of that name in the candidate list; it finds nothing exactly when no variable has
  such a name. This holds for the latitude and for the longitude list. When the latitude or
  the longitude variable is not found, \<open>parseNetCDF\<close> fails with the error of a missing
  latitude or longitude variable.
\<close>

theorem first_match_in_dataset_order:
  "(findVariable rd candidates = None \<longleftrightarrow> (\<forall>v \<in> set (variables rd). \<not> nameMatches candidates v)) \<and>
   (\<forall>v. findVariable rd candidates = Some v \<longrightarrow>
      (\<exists>i < length (variables rd). variables rd ! i = v \<and> nameMatches candidates v \<and>
         (\<forall>j < i. \<not> nameMatches candidates (variables rd ! j)))) \<and>
   (content file = Some rd \<and>
      (findVariable rd LAT_CANDIDATES = None \<or> findVariable rd LON_CANDIDATES = None)
      \<longrightarrow> parseNetCDF file = Inl LatLonNotFound)"
proof (intro conjI allI impI)
  show "findVariable rd candidates = None \<longleftrightarrow> (\<forall>v \<in> set (variables rd). \<not> nameMatches candidates v)"
    by (auto simp: findVariable_find find_None_iff)
next
  fix v assume "findVariable rd candidates = Some v"
  then show "\<exists>i < length (variables rd). variables rd ! i = v \<and> nameMatches candidates v \<and>
         (\<forall>j < i. \<not> nameMatches candidates (variables rd ! j))"
    by (auto simp: findVariable_find find_Some_iff)
next
  assume "content file = Some rd \<and>
      (findVariable rd LAT_CANDIDATES = None \<or> findVariable rd LON_CANDIDATES = None)"
  then show "parseNetCDF file = Inl LatLonNotFound"
    using parseNetCDF_no_latlon by blast
qed

theorem first_match_in_dataset_order_witness:
  "findVariable readerYLat LAT_CANDIDATES = Some varY \<and>
   (\<exists>i < length (variables readerYLat). variables readerYLat ! i = varY \<and>
       nameMatches LAT_CANDIDATES varY \<and>
       (\<forall>j < i. \<not> nameMatches LAT_CANDIDATES (variables readerYLat ! j))) \<and>
   findVariable readerYLat LON_CANDIDATES = None \<and>
   parseNetCDF \<lparr> fileName = ''tile.nc'', content = Some readerYLat \<rparr> = Inl LatLonNotFound"
proof -
  have f: "findVariable readerYLat LAT_CANDIDATES = Some varY"
    by (simp add: findVariable_def readerYLat_def varY_def varLat_def LAT_CANDIDATES_def
          toLowerCase_def lower_char_def)
  have n: "findVariable readerYLat LON_CANDIDATES = None"
    by (simp add: findVariable_def readerYLat_def varY_def varLat_def LON_CANDIDATES_def
          toLowerCase_def lower_char_def)
  have c: "content \<lparr> fileName = ''tile.nc'', content = Some readerYLat \<rparr> = Some readerYLat"
    by simp
  from first_match_in_dataset_order[of readerYLat LAT_CANDIDATES
         "\<lparr> fileName = ''tile.nc'', content = Some readerYLat \<rparr>"] f n c
  show ?thesis by blast
qed

section \<open>Reshaping the elevation data\<close>

lemma parseDimensionName_id: "parseDimensionName d = d"
  by (simp add: parseDimensionName_def)

lemma declaredDims_eq: "declaredDims rd v = map (\<lambda>name. (name, dimSize rd name)) (vdims v)"
  by (simp add: declaredDims_def parseDimensionName_id)

lemma stripTrailing_short: "length dims \<le> 2 \<Longrightarrow> stripTrailing dims = dims"
  by (subst stripTrailing.simps) simp

lemma remainingDims_two:
  "remainingDims latDimName lonDimName [d1, d2] data = ([d1, d2], data)"
  by (cases d1) (simp add: remainingDims_def stripTrailing_short)

lemma remainingDims_nonempty:
  "remainingDims latDimName lonDimName dims0 data0 = (d # ds, data) \<Longrightarrow> dims0 \<noteq> []"
  by (auto simp: remainingDims_def stripTrailing_short)

lemma reshape_two_remaining:
  assumes "getDataVariable rd (vname ev) = Inr data0"
      and "remainingDims latDimName lonDimName (declaredDims rd ev) data0 = ([(n1, s1), (n2, s2)], data)"
  shows "reshapeElevationGrid rd ev latDimName lonDimName latCount lonCount =
           orientGrid n1 s1 n2 s2 data latDimName lonDimName latCount lonCount"
  using assms remainingDims_nonempty[OF assms(2)]
  by (simp add: reshapeElevationGrid_def)

text \<open>
  Against claim C3 as stated: two dimensions \<open>a\<close> and \<open>b\<close> of size 2, neither of them the
  latitude or the longitude dimension, with two latitudes and two longitudes. The code
  raises nothing and fills the grid latitude-major.
\<close>

theorem square_dims_counterexample:
  "reshapeElevationGrid readerSquare varSquare ''lat'' ''lon'' 2 2 =
     Inr [[Num (Fin 1), Num (Fin 2)], [Num (Fin 3), Num (Fin 4)]]"
proof -
  have d: "getDataVariable readerSquare (vname varSquare) = Inr [Fin 1, Fin 2, Fin 3, Fin 4]"
    by (simp add: getDataVariable_def readerSquare_def varSquare_def)
  have r: "remainingDims ''lat'' ''lon'' (declaredDims readerSquare varSquare) [Fin 1, Fin 2, Fin 3, Fin 4]
             = ([(''a'', 2), (''b'', 2)], [Fin 1, Fin 2, Fin 3, Fin 4])"
    by (simp add: declaredDims_eq readerSquare_def varSquare_def dimSize_def remainingDims_two)
  show ?thesis
    unfolding reshape_two_remaining[OF d r]
    by (simp add: orientGrid_def firstSizeOf_def secondSizeOf_def fillLatMajor_def js_nth_def
          toLowerCase_def lower_char_def upt_rec)
qed

text \<open>
  Claim C3, as amended. When the two dimensions that remain match neither the latitude nor
  the longitude dimension name, have one declared size \<open>k > 0\<close>, and the buffer holds at
  least \<open>k * k\<close> values, \<open>reshapeElevationGrid\<close> fails with the error of a dimension order
  it cannot interpret unless \<open>k\<close> is both the latitude and the longitude count; in that
  case it raises nothing and fills the grid latitude-major.
\<close>

theorem equal_sizes_no_name_match:
  assumes "getDataVariable rd (vname ev) = Inr data0"
      and "remainingDims latDimName lonDimName (declaredDims rd ev) data0 = ([(n1, k), (n2, k)], data)"
      and "0 < k" and "k * k \<le> length data"
      and "toLowerCase n1 \<noteq> toLowerCase latDimName" and "toLowerCase n1 \<noteq> toLowerCase lonDimName"
      and "toLowerCase n2 \<noteq> toLowerCase latDimName" and "toLowerCase n2 \<noteq> toLowerCase lonDimName"
  shows "reshapeElevationGrid rd ev latDimName lonDimName latCount lonCount =
           (if k = latCount \<and> k = lonCount then Inr (fillLatMajor data latCount lonCount)
            else Inl DimensionOrderUnknown)"
  unfolding reshape_two_remaining[OF assms(1,2)]
  using assms(3-6) by (auto simp: orientGrid_def firstSizeOf_def secondSizeOf_def Let_def)

theorem equal_sizes_no_name_match_witness:
  "getDataVariable readerSquare (vname varSquare) = Inr [Fin 1, Fin 2, Fin 3, Fin 4] \<and>
   remainingDims ''lat'' ''lon'' (declaredDims readerSquare varSquare) [Fin 1, Fin 2, Fin 3, Fin 4]
     = ([(''a'', 2), (''b'', 2)], [Fin 1, Fin 2, Fin 3, Fin 4]) \<and>
   reshapeElevationGrid readerSquare varSquare ''lat'' ''lon'' 3 2 = Inl DimensionOrderUnknown \<and>
   reshapeElevationGrid readerSquare varSquare ''lat'' ''lon'' 2 2 =
     Inr (fillLatMajor [Fin 1, Fin 2, Fin 3, Fin 4] 2 2)"
proof -
  have d: "getDataVariable readerSquare (vname varSquare) = Inr [Fin 1, Fin 2, Fin 3, Fin 4]"
    by (simp add: getDataVariable_def readerSquare_def varSquare_def)
  have r: "remainingDims ''lat'' ''lon'' (declaredDims readerSquare varSquare) [Fin 1, Fin 2, Fin 3, Fin 4]
             = ([(''a'', 2), (''b'', 2)], [Fin 1, Fin 2, Fin 3, Fin 4])"
    by (simp add: declaredDims_eq readerSquare_def varSquare_def dimSize_def remainingDims_two)
  have k: "0 < (2::nat)" "(2::nat) * 2 \<le> length [Fin 1, Fin 2, Fin 3, Fin 4]" by simp_all
  have n: "toLowerCase ''a'' \<noteq> toLowerCase ''lat''" "toLowerCase ''a'' \<noteq> toLowerCase ''lon''"
          "toLowerCase ''b'' \<noteq> toLowerCase ''lat''" "toLowerCase ''b'' \<noteq> toLowerCase ''lon''"
    by (simp_all add: toLowerCase_def)
  from equal_sizes_no_name_match[OF d r k n, of 3 2] equal_sizes_no_name_match[OF d r k n, of 2 2] d r
  show ?thesis by simp
qed

lemma js_nth_take: "k < T \<Longrightarrow> js_nth (take T data) k = js_nth data k"
  by (simp add: js_nth_def)

lemma fillLatMajor_take:
  assumes "latCount * lonCount \<le> T"
  shows "fillLatMajor (take T data) latCount lonCount = fillLatMajor data latCount lonCount"
proof -
  have "js_nth (take T data) (j * lonCount + i) = js_nth data (j * lonCount + i)"
    if "j < latCount" "i < lonCount" for i j
    using index_in_range[OF that] assms by (intro js_nth_take) simp
  then show ?thesis by (simp add: fillLatMajor_def)
qed

lemma fillLonMajor_take:
  assumes "latCount * lonCount \<le> T"
  shows "fillLonMajor (take T data) latCount lonCount = fillLonMajor data latCount lonCount"
proof -
  have "js_nth (take T data) (i * latCount + j) = js_nth data (i * latCount + j)"
    if "j < latCount" "i < lonCount" for i j
    using index_in_range[OF that(2,1)] assms by (intro js_nth_take) (simp add: mult.commute)
  then show ?thesis by (simp add: fillLonMajor_def)
qed

lemma orientGrid_take:
  assumes "T = firstSizeOf n1 s1 latDimName latCount lonCount *
               secondSizeOf n2 s2 lonDimName latCount lonCount"
      and "latCount * lonCount \<le> T"
  shows "orientGrid n1 s1 n2 s2 (take T data) latDimName lonDimName latCount lonCount =
         orientGrid n1 s1 n2 s2 data latDimName lonDimName latCount lonCount"
proof -
  have len: "length (take T data) < T \<longleftrightarrow> length data < T" by auto
  show ?thesis
    unfolding orientGrid_def Let_def assms(1)[symmetric] len
      fillLatMajor_take[OF assms(2)] fillLonMajor_take[OF assms(2)] ..
qed










lemma getDataVariable_error: "getDataVariable rd name = Inl e \<Longrightarrow> e = ReaderError"
  by (auto simp: getDataVariable_def split: option.splits)

lemma orientGrid_short_iff:
  "orientGrid n1 s1 n2 s2 data latDimName lonDimName latCount lonCount = Inl BufferTooShort \<longleftrightarrow>
     length data < firstSizeOf n1 s1 latDimName latCount lonCount *
                   secondSizeOf n2 s2 lonDimName latCount lonCount"
  by (simp add: orientGrid_def Let_def)

lemma reshape_short_only_if:
  assumes "reshapeElevationGrid rd ev latDimName lonDimName latCount lonCount = Inl BufferTooShort"
  shows "\<exists>data0 n1 s1 n2 s2 data.
           getDataVariable rd (vname ev) = Inr data0 \<and>
           remainingDims latDimName lonDimName (declaredDims rd ev) data0 = ([(n1, s1), (n2, s2)], data) \<and>
           length data < firstSizeOf n1 s1 latDimName latCount lonCount *
                         secondSizeOf n2 s2 lonDimName latCount lonCount"
proof (cases "getDataVariable rd (vname ev)")
  case (Inl e)
  then show ?thesis using assms getDataVariable_error[OF Inl] by (simp add: reshapeElevationGrid_def)
next
  case (Inr data0)
  obtain dims data where r: "remainingDims latDimName lonDimName (declaredDims rd ev) data0 = (dims, data)"
    by (cases "remainingDims latDimName lonDimName (declaredDims rd ev) data0") auto
  have "\<exists>n1 s1 n2 s2. dims = [(n1, s1), (n2, s2)]"
    using assms Inr r
    by (auto simp: reshapeElevationGrid_def Let_def split: if_splits list.splits)
  then obtain n1 s1 n2 s2 where d: "dims = [(n1, s1), (n2, s2)]" by blast
  have "orientGrid n1 s1 n2 s2 data latDimName lonDimName latCount lonCount = Inl BufferTooShort"
    using assms reshape_two_remaining[OF Inr r[unfolded d]] by simp
  then show ?thesis using Inr r d by (auto simp: orientGrid_short_iff)
qed

text \<open>
  Against claim C10 as stated: two buffers of six values that agree on their first
  \<open>2 * 2\<close> values, the product of the two declared sizes, and differ after them. With
  three latitudes asked for, the values after the product reach the grid, and the two grids
  differ.
\<close>

theorem surplus_counterexample:
  "take (2 * 2) (vdata (varOf readerSurplus 0)) = take (2 * 2) (vdata (varOf readerSurplus 1)) \<and>
   reshapeElevationGrid readerSurplus (varOf readerSurplus 0) ''lat'' ''lon'' 3 2 =
     Inr [[Num (Fin 1), Num (Fin 2)], [Num (Fin 3), Num (Fin 4)], [Num (Fin 5), Num (Fin 6)]] \<and>
   reshapeElevationGrid readerSurplus (varOf readerSurplus 1) ''lat'' ''lon'' 3 2 =
     Inr [[Num (Fin 1), Num (Fin 2)], [Num (Fin 3), Num (Fin 4)], [Num (Fin 7), Num (Fin 8)]]"
proof -
  let ?d0 = "[Fin 1, Fin 2, Fin 3, Fin 4, Fin 5, Fin 6]"
  let ?d1 = "[Fin 1, Fin 2, Fin 3, Fin 4, Fin 7, Fin 8]"
  have d0: "getDataVariable readerSurplus (vname (varOf readerSurplus 0)) = Inr ?d0"
    and d1: "getDataVariable readerSurplus (vname (varOf readerSurplus 1)) = Inr ?d1"
    by (simp_all add: getDataVariable_def readerSurplus_def varOf_def)
  have r0: "remainingDims ''lat'' ''lon'' (declaredDims readerSurplus (varOf readerSurplus 0)) ?d0
             = ([(''lat'', 2), (''lon'', 2)], ?d0)"
    and r1: "remainingDims ''lat'' ''lon'' (declaredDims readerSurplus (varOf readerSurplus 1)) ?d1
             = ([(''lat'', 2), (''lon'', 2)], ?d1)"
    by (simp_all add: declaredDims_eq readerSurplus_def varOf_def dimSize_def remainingDims_two)
  show ?thesis
    unfolding reshape_two_remaining[OF d0 r0] reshape_two_remaining[OF d1 r1]
    by (simp add: orientGrid_def firstSizeOf_def secondSizeOf_def fillLatMajor_def js_nth_def
          toLowerCase_def lower_char_def upt_rec readerSurplus_def varOf_def)
qed

text \<open>
  Claim C10, as amended. \<open>reshapeElevationGrid\<close> raises its buffer-length error if and only
  if two dimensions remain and the buffer that remains is strictly shorter than the product
  \<open>firstSize * secondSize\<close> of their sizes. A buffer at least as long as the product passes
  that check, and when \<open>latCount * lonCount\<close> does not exceed the product, the result is
  the one computed from the first \<open>firstSize * secondSize\<close> values alone: the values after
  them are ignored.
\<close>

theorem buffer_length_check:
  "(reshapeElevationGrid rd ev latDimName lonDimName latCount lonCount = Inl BufferTooShort \<longleftrightarrow>
      (\<exists>data0 n1 s1 n2 s2 data.
          getDataVariable rd (vname ev) = Inr data0 \<and>
          remainingDims latDimName lonDimName (declaredDims rd ev) data0 = ([(n1, s1), (n2, s2)], data) \<and>
          length data < firstSizeOf n1 s1 latDimName latCount lonCount *
                        secondSizeOf n2 s2 lonDimName latCount lonCount)) \<and>
   (\<forall>data0 n1 s1 n2 s2 data T.
       getDataVariable rd (vname ev) = Inr data0 \<and>
       remainingDims latDimName lonDimName (declaredDims rd ev) data0 = ([(n1, s1), (n2, s2)], data) \<and>
       T = firstSizeOf n1 s1 latDimName latCount lonCount *
           secondSizeOf n2 s2 lonDimName latCount lonCount \<and>
       T \<le> length data \<and> latCount * lonCount \<le> T
       \<longrightarrow> reshapeElevationGrid rd ev latDimName lonDimName latCount lonCount \<noteq> Inl BufferTooShort \<and>
           reshapeElevationGrid rd ev latDimName lonDimName latCount lonCount =
             orientGrid n1 s1 n2 s2 (take T data) latDimName lonDimName latCount lonCount)"
proof (intro conjI allI impI iffI)
  assume "reshapeElevationGrid rd ev latDimName lonDimName latCount lonCount = Inl BufferTooShort"
  then show "\<exists>data0 n1 s1 n2 s2 data.
          getDataVariable rd (vname ev) = Inr data0 \<and>
          remainingDims latDimName lonDimName (declaredDims rd ev) data0 = ([(n1, s1), (n2, s2)], data) \<and>
          length data < firstSizeOf n1 s1 latDimName latCount lonCount *
                        secondSizeOf n2 s2 lonDimName latCount lonCount"
    by (rule reshape_short_only_if)
next
  assume "\<exists>data0 n1 s1 n2 s2 data.
          getDataVariable rd (vname ev) = Inr data0 \<and>
          remainingDims latDimName lonDimName (declaredDims rd ev) data0 = ([(n1, s1), (n2, s2)], data) \<and>
          length data < firstSizeOf n1 s1 latDimName latCount lonCount *
                        secondSizeOf n2 s2 lonDimName latCount lonCount"
  then show "reshapeElevationGrid rd ev latDimName lonDimName latCount lonCount = Inl BufferTooShort"
    using reshape_two_remaining orientGrid_short_iff by metis
next
  fix data0 n1 s1 n2 s2 data T
  assume a: "getDataVariable rd (vname ev) = Inr data0 \<and>
       remainingDims latDimName lonDimName (declaredDims rd ev) data0 = ([(n1, s1), (n2, s2)], data) \<and>
       T = firstSizeOf n1 s1 latDimName latCount lonCount *
           secondSizeOf n2 s2 lonDimName latCount lonCount \<and>
       T \<le> length data \<and> latCount * lonCount \<le> T"
  then have r: "reshapeElevationGrid rd ev latDimName lonDimName latCount lonCount =
                orientGrid n1 s1 n2 s2 data latDimName lonDimName latCount lonCount"
    using reshape_two_remaining by blast
  from a have T: "T = firstSizeOf n1 s1 latDimName latCount lonCount *
                      secondSizeOf n2 s2 lonDimName latCount lonCount"
    and len: "T \<le> length data" and cnt: "latCount * lonCount \<le> T"
    by simp_all
  have "\<not> length data < firstSizeOf n1 s1 latDimName latCount lonCount *
                          secondSizeOf n2 s2 lonDimName latCount lonCount"
    using len unfolding T by simp
  then show "reshapeElevationGrid rd ev latDimName lonDimName latCount lonCount \<noteq> Inl BufferTooShort"
    unfolding r orientGrid_short_iff .
  show "reshapeElevationGrid rd ev latDimName lonDimName latCount lonCount =
             orientGrid n1 s1 n2 s2 (take T data) latDimName lonDimName latCount lonCount"
    unfolding r by (rule orientGrid_take[OF T cnt, symmetric])
qed

theorem buffer_length_check_witness:
  "reshapeElevationGrid readerSurplus (varOf readerSurplus 0) ''lat'' ''lon'' 2 2 \<noteq> Inl BufferTooShort \<and>
   reshapeElevationGrid readerSurplus (varOf readerSurplus 0) ''lat'' ''lon'' 2 2 =
     orientGrid ''lat'' 2 ''lon'' 2 (take 4 [Fin 1, Fin 2, Fin 3, Fin 4, Fin 5, Fin 6])
       ''lat'' ''lon'' 2 2 \<and>
   reshapeElevationGrid readerSurplus (varOf readerSurplus 2) ''lat'' ''lon'' 2 2 = Inl BufferTooShort"
proof -
  let ?d0 = "[Fin 1, Fin 2, Fin 3, Fin 4, Fin 5, Fin 6]"
  have d0: "getDataVariable readerSurplus (vname (varOf readerSurplus 0)) = Inr ?d0"
    by (simp add: getDataVariable_def readerSurplus_def varOf_def)
  have r0: "remainingDims ''lat'' ''lon'' (declaredDims readerSurplus (varOf readerSurplus 0)) ?d0
             = ([(''lat'', 2), (''lon'', 2)], ?d0)"
    by (simp add: declaredDims_eq readerSurplus_def varOf_def dimSize_def remainingDims_two)
  have t: "(4::nat) = firstSizeOf ''lat'' 2 ''lat'' 2 2 * secondSizeOf ''lon'' 2 ''lon'' 2 2"
          "(4::nat) \<le> length ?d0" "(2::nat) * 2 \<le> 4"
    by (simp_all add: firstSizeOf_def secondSizeOf_def)
  have d2: "getDataVariable readerSurplus (vname (varOf readerSurplus 2)) = Inr [Fin 1, Fin 2, Fin 3]"
    by (simp add: getDataVariable_def readerSurplus_def varOf_def)
  have r2: "remainingDims ''lat'' ''lon'' (declaredDims readerSurplus (varOf readerSurplus 2))
              [Fin 1, Fin 2, Fin 3] = ([(''lat'', 2), (''lon'', 2)], [Fin 1, Fin 2, Fin 3])"
    by (simp add: declaredDims_eq readerSurplus_def varOf_def dimSize_def remainingDims_two)
  have l2: "length [Fin 1, Fin 2, Fin 3] <
              firstSizeOf ''lat'' 2 ''lat'' 2 2 * secondSizeOf ''lon'' 2 ''lon'' 2 2"
    by (simp add: firstSizeOf_def secondSizeOf_def)
  have short: "reshapeElevationGrid readerSurplus (varOf readerSurplus 2) ''lat'' ''lon'' 2 2 = Inl BufferTooShort"
    by (rule buffer_length_check[THEN conjunct1, THEN iffD2]) (use d2 r2 l2 in blast)
  have long: "reshapeElevationGrid readerSurplus (varOf readerSurplus 0) ''lat'' ''lon'' 2 2 \<noteq> Inl BufferTooShort \<and>
      reshapeElevationGrid readerSurplus (varOf readerSurplus 0) ''lat'' ''lon'' 2 2 =
        orientGrid ''lat'' 2 ''lon'' 2 (take 4 ?d0) ''lat'' ''lon'' 2 2"
    by (rule buffer_length_check[THEN conjunct2, rule_format]) (use d0 r0 t in blast)
  from long short show ?thesis by blast
qed

section \<open>Scenes the program can reach, and the plate that stays\<close>

lemma sceneInvariant_start: "sceneInvariant startScene"
  by (simp add: sceneInvariant_def startScene_def)

lemma sceneInvariant_clearModel: "sceneInvariant (clearModel s)"
  by (simp add: sceneInvariant_def clearModel_def)

lemma sceneInvariant_rebuildBase: "sceneInvariant (rebuildBase env t s)"
  by (auto simp: sceneInvariant_def rebuildBase_def Let_def)

lemma build_invalid:
  "validateGrid lat lon g = Some e \<Longrightarrow> buildTerrainFromGrid env ui lat lon g opts s = (Some e, s)"
  by (simp add: buildTerrainFromGrid_def)

lemma build_error_unchanged:
  assumes "fst (buildTerrainFromGrid env ui lat lon g opts s) \<noteq> None"
  shows "snd (buildTerrainFromGrid env ui lat lon g opts s) = s"
proof (cases "validateGrid lat lon g")
  case None
  from build_valid(1)[OF this] assms show ?thesis by simp
next
  case (Some e)
  then show ?thesis by (simp add: build_invalid)
qed

lemma build_success_terrain:
  assumes "validateGrid lat lon g = None"
  shows "terrainMesh (snd (buildTerrainFromGrid env ui lat lon g opts s)) \<noteq> None"
proof -
  have "heightsOf (snd (buildTerrainFromGrid env ui lat lon g opts s)) \<noteq> []"
    using assms build_valid(2)[OF assms, of env ui opts s] by (auto simp: validateGrid_None)
  then show ?thesis by (auto simp: heightsOf_def split: option.splits)
qed

lemma sceneInvariant_build:
  assumes "sceneInvariant s"
  shows "sceneInvariant (snd (buildTerrainFromGrid env ui lat lon g opts s))"
proof (cases "validateGrid lat lon g")
  case None
  from build_success_terrain[OF None, of env ui opts s] show ?thesis
    by (auto simp: sceneInvariant_def)
next
  case (Some e)
  then show ?thesis using assms by (simp add: build_invalid)
qed

lemma sceneInvariant_loadNcFile:
  assumes "sceneInvariant s"
  shows "sceneInvariant (loadNcFile env ui file s)"
proof -
  have status: "sceneInvariant (x\<lparr> loadStatus := st \<rparr>) = sceneInvariant x" for x st
    by (simp add: sceneInvariant_def)
  show ?thesis
  proof (cases "parseNetCDF file")
    case (Inl e)
    then show ?thesis using assms by (simp add: loadNcFile_def status)
  next
    case (Inr ds)
    let ?s0 = "s\<lparr> loadStatus := Parsing (fileName file) \<rparr>"
    let ?r = "buildTerrainFromGrid env ui (dsLat ds) (dsLon ds) (dsElevation ds)
                \<lparr> fileNameBase = fileBaseName ds, sourceLabel = fileName file \<rparr> ?s0"
    have "sceneInvariant ?s0" using assms by (simp add: status)
    then have "sceneInvariant (snd ?r)" by (rule sceneInvariant_build)
    then show ?thesis
      using Inr by (cases ?r) (auto simp: loadNcFile_def status split: option.splits)
  qed
qed

lemma unchanged_base: "baseMesh s = None \<Longrightarrow> s\<lparr> baseMesh := None \<rparr> = s"
  by (cases s) simp

text \<open>
  Claim C9. When \<open>rebuildBase\<close> is called with a finite thickness above 0 while the minimum
  of the terrain group's bounding box is not finite along some axis, it returns without
  building, replacing or removing anything: the scene is unchanged, and a plate built
  earlier stays. With a thickness that is not finite or not above 0, in contrast, no plate
  is left. The scene is one the program can reach: it has no plate without a terrain.
\<close>

theorem stale_base_plate:
  assumes inv: "sceneInvariant s"
      and fin: "isFinite thickness" and pos: "num_less (Fin 0) thickness"
      and bb: "bbox = setFromObject env (terrainGroupScale s) (terrainMesh s)"
      and bad: "\<not> (isFinite (getX (bmin bbox)) \<and> isFinite (getY (bmin bbox)) \<and>
                    isFinite (getZ (bmin bbox)))"
  shows "rebuildBase env thickness s = s \<and>
         (\<forall>other. \<not> isFinite other \<or> num_le other (Fin 0)
            \<longrightarrow> baseMesh (rebuildBase env other s) = None)"
proof
  obtain t where t: "thickness = Fin t" using fin by (auto simp: isFinite_iff)
  then have nle: "\<not> num_le thickness (Fin 0)" using pos by (simp add: num_le_Fin)
  show "rebuildBase env thickness s = s"
  proof (cases "terrainMesh s")
    case None
    then have "baseMesh s = None" using inv by (simp add: sceneInvariant_def)
    then show ?thesis using None by (simp add: rebuildBase_def unchanged_base)
  next
    case (Some m)
    then show ?thesis using fin nle bad bb by (auto simp: rebuildBase_def Let_def)
  qed
  show "\<forall>other. \<not> isFinite other \<or> num_le other (Fin 0)
            \<longrightarrow> baseMesh (rebuildBase env other s) = None"
    by (auto simp: rebuildBase_def)
qed

lemma staleScene_box:
  "getZ (bmin (setFromObject nanThree (terrainGroupScale staleScene) (terrainMesh staleScene))) = NaN"
  by (simp add: nanThree_def fixedBoxes_def nanBox_def getZ_def)

theorem stale_base_plate_witness:
  "sceneInvariant staleScene \<and> isFinite (Fin 5) \<and> num_less (Fin 0) (Fin 5) \<and>
   \<not> isFinite (getZ (bmin (setFromObject nanThree (terrainGroupScale staleScene)
                              (terrainMesh staleScene)))) \<and>
   rebuildBase nanThree (Fin 5) staleScene = staleScene \<and>
   baseMesh staleScene = Some oldPlate \<and>
   baseMesh (rebuildBase nanThree (Fin 0) staleScene) = None \<and>
   baseMesh (rebuildBase nanThree PInf staleScene) = None"
proof -
  let ?b = "setFromObject nanThree (terrainGroupScale staleScene) (terrainMesh staleScene)"
  have h1: "sceneInvariant staleScene" by (simp add: sceneInvariant_def staleScene_def)
  have h2: "isFinite (Fin 5)" and h3: "num_less (Fin 0) (Fin 5)" by simp_all
  have h4: "\<not> isFinite (getZ (bmin ?b))" by (simp add: staleScene_box)
  then have h5: "\<not> (isFinite (getX (bmin ?b)) \<and> isFinite (getY (bmin ?b)) \<and> isFinite (getZ (bmin ?b)))"
    by blast
  note th = stale_base_plate[OF h1 h2 h3 refl h5]
  have a: "rebuildBase nanThree (Fin 5) staleScene = staleScene" using th by blast
  have b: "baseMesh (rebuildBase nanThree (Fin 0) staleScene) = None"
    using th[THEN conjunct2, rule_format, of "Fin 0"] by (simp add: num_le_Fin)
  have c: "baseMesh (rebuildBase nanThree PInf staleScene) = None"
    using th[THEN conjunct2, rule_format, of PInf] by simp
  have d: "baseMesh staleScene = Some oldPlate" by (simp add: staleScene_def)
  from h1 h2 h3 h4 a b c d show ?thesis by blast
qed

section \<open>A load that fails\<close>

lemma loadNcFile_parse_error:
  "parseNetCDF file = Inl e \<Longrightarrow> loadNcFile env ui file s = s\<lparr> loadStatus := LoadError e \<rparr>"
  by (simp add: loadNcFile_def)

lemma loadNcFile_invalid:
  assumes "parseNetCDF file = Inr ds"
      and "validateGrid (dsLat ds) (dsLon ds) (dsElevation ds) = Some e"
  shows "loadNcFile env ui file s = s\<lparr> loadStatus := LoadError e \<rparr>"
  using assms by (simp add: loadNcFile_def build_invalid)

lemma validateGrid_Some_iff:
  "validateGrid lat lon g \<noteq> None \<longleftrightarrow>
     length lat < 2 \<or> length lon < 2 \<or> length g \<noteq> length lat \<or>
     (\<exists>row \<in> set g. length row \<noteq> length lon)"
  by (auto simp: validateGrid_def)

lemma parseNetCDF_success:
  assumes "parseNetCDF file = Inr ds"
  shows "\<exists>rd latVar lonVar latData lonData elevVar.
           content file = Some rd \<and>
           findVariable rd LAT_CANDIDATES = Some latVar \<and>
           findVariable rd LON_CANDIDATES = Some lonVar \<and>
           getDataVariable rd (vname latVar) = Inr latData \<and> 2 \<le> length latData \<and>
           getDataVariable rd (vname lonVar) = Inr lonData \<and> 2 \<le> length lonData \<and>
           findElevationVariable rd (firstDimOrName latVar) (firstDimOrName lonVar) = Some elevVar \<and>
           reshapeElevationGrid rd elevVar (firstDimOrName latVar) (firstDimOrName lonVar)
             (countOr rd (firstDimOrName latVar) (length latData))
             (countOr rd (firstDimOrName lonVar) (length lonData)) = Inr (dsElevation ds)"
  using assms
  by (auto simp: parseNetCDF_def Let_def parseDimensionName_id
           split: option.splits sum.splits if_splits list.splits)

text \<open>
  Claim C6. A load whose input fails resolution or structural validation aborts before any
  mesh is built and leaves the terrain and the base plate as they were. When
  \<open>parseNetCDF\<close> fails, or yields a grid that \<open>validateGrid\<close> rejects, \<open>loadNcFile\<close>
  changes nothing but the status line. \<open>parseNetCDF\<close> succeeds only when the latitude,
  the longitude and the elevation variable are found and the elevation is reshaped without
  an error. A latitude or longitude array shorter than 2, a number of rows that is not the
  number of latitudes, or a row whose length is not the number of longitudes makes
  \<open>buildTerrainFromGrid\<close> raise with the scene unchanged; and whenever it raises, the
  scene is unchanged.
\<close>

theorem failed_load_keeps_model:
  "(parseNetCDF file = Inl e \<longrightarrow> loadNcFile env ui file s = s\<lparr> loadStatus := LoadError e \<rparr>) \<and>
   (\<forall>ds. parseNetCDF file = Inr ds \<and>
          validateGrid (dsLat ds) (dsLon ds) (dsElevation ds) = Some e
          \<longrightarrow> loadNcFile env ui file s = s\<lparr> loadStatus := LoadError e \<rparr>) \<and>
   (\<forall>ds. parseNetCDF file = Inr ds \<longrightarrow>
      (\<exists>rd latVar lonVar latData lonData elevVar.
           content file = Some rd \<and>
           findVariable rd LAT_CANDIDATES = Some latVar \<and>
           findVariable rd LON_CANDIDATES = Some lonVar \<and>
           getDataVariable rd (vname latVar) = Inr latData \<and> 2 \<le> length latData \<and>
           getDataVariable rd (vname lonVar) = Inr lonData \<and> 2 \<le> length lonData \<and>
           findElevationVariable rd (firstDimOrName latVar) (firstDimOrName lonVar) = Some elevVar \<and>
           reshapeElevationGrid rd elevVar (firstDimOrName latVar) (firstDimOrName lonVar)
             (countOr rd (firstDimOrName latVar) (length latData))
             (countOr rd (firstDimOrName lonVar) (length lonData)) = Inr (dsElevation ds))) \<and>
   (length lat < 2 \<or> length lon < 2 \<or> length g \<noteq> length lat \<or>
      (\<exists>row \<in> set g. length row \<noteq> length lon)
      \<longrightarrow> (\<exists>err. buildTerrainFromGrid env ui lat lon g opts s = (Some err, s))) \<and>
   (fst (buildTerrainFromGrid env ui lat lon g opts s) \<noteq> None
      \<longrightarrow> snd (buildTerrainFromGrid env ui lat lon g opts s) = s)"
proof (intro conjI allI impI)
  show "loadNcFile env ui file s = s\<lparr> loadStatus := LoadError e \<rparr>" if "parseNetCDF file = Inl e"
    using that by (rule loadNcFile_parse_error)
  show "loadNcFile env ui file s = s\<lparr> loadStatus := LoadError e \<rparr>"
    if "parseNetCDF file = Inr ds \<and> validateGrid (dsLat ds) (dsLon ds) (dsElevation ds) = Some e" for ds
    using that loadNcFile_invalid by blast
  show "\<exists>rd latVar lonVar latData lonData elevVar.
           content file = Some rd \<and>
           findVariable rd LAT_CANDIDATES = Some latVar \<and>
           findVariable rd LON_CANDIDATES = Some lonVar \<and>
           getDataVariable rd (vname latVar) = Inr latData \<and> 2 \<le> length latData \<and>
           getDataVariable rd (vname lonVar) = Inr lonData \<and> 2 \<le> length lonData \<and>
           findElevationVariable rd (firstDimOrName latVar) (firstDimOrName lonVar) = Some elevVar \<and>
           reshapeElevationGrid rd elevVar (firstDimOrName latVar) (firstDimOrName lonVar)
             (countOr rd (firstDimOrName latVar) (length latData))
             (countOr rd (firstDimOrName lonVar) (length lonData)) = Inr (dsElevation ds)"
    if "parseNetCDF file = Inr ds" for ds
    using that by (rule parseNetCDF_success)
  show "\<exists>err. buildTerrainFromGrid env ui lat lon g opts s = (Some err, s)"
    if "length lat < 2 \<or> length lon < 2 \<or> length g \<noteq> length lat \<or>
        (\<exists>row \<in> set g. length row \<noteq> length lon)"
  proof -
    from that have "validateGrid lat lon g \<noteq> None" by (simp only: validateGrid_Some_iff)
    then obtain err where "validateGrid lat lon g = Some err" by auto
    then show ?thesis using build_invalid by blast
  qed
  show "snd (buildTerrainFromGrid env ui lat lon g opts s) = s"
    if "fst (buildTerrainFromGrid env ui lat lon g opts s) \<noteq> None"
    using that by (rule build_error_unchanged)
qed

theorem failed_load_keeps_model_witness:
  "parseNetCDF tileFile = Inl LatLonNotFound \<and>
   loadNcFile nanThree noControls tileFile staleScene
     = staleScene\<lparr> loadStatus := LoadError LatLonNotFound \<rparr> \<and>
   terrainMesh (loadNcFile nanThree noControls tileFile staleScene) = Some infMesh \<and>
   baseMesh (loadNcFile nanThree noControls tileFile staleScene) = Some oldPlate \<and>
   buildTerrainFromGrid nanThree noControls exLat exLon [] sampleOptions staleScene
     = (Some GridRowsMismatch, staleScene)"
proof -
  have p: "parseNetCDF tileFile = Inl LatLonNotFound"
    by (simp add: parseNetCDF_def tileFile_def findVariable_def readerYLat_def varY_def varLat_def
          LAT_CANDIDATES_def LON_CANDIDATES_def toLowerCase_def lower_char_def)
  note th = failed_load_keeps_model[of tileFile LatLonNotFound nanThree noControls staleScene
              exLat exLon "[]" sampleOptions]
  have l: "loadNcFile nanThree noControls tileFile staleScene
             = staleScene\<lparr> loadStatus := LoadError LatLonNotFound \<rparr>"
    using th p by blast
  have "\<exists>err. buildTerrainFromGrid nanThree noControls exLat exLon [] sampleOptions staleScene
             = (Some err, staleScene)"
    using th by (simp add: exLat_def)
  then have b: "buildTerrainFromGrid nanThree noControls exLat exLon [] sampleOptions staleScene
             = (Some GridRowsMismatch, staleScene)"
    by (auto simp: buildTerrainFromGrid_def validateGrid_def exLat_def exLon_def)
  have t: "terrainMesh (loadNcFile nanThree noControls tileFile staleScene) = Some infMesh"
          "baseMesh (loadNcFile nanThree noControls tileFile staleScene) = Some oldPlate"
    unfolding l by (simp_all add: staleScene_def)
  from p l t b show ?thesis by blast
qed

section \<open>Properties of the export\<close>


lemma meshesHaveBuffers_status [simp]:
  "meshesHaveBuffers (s\<lparr> loadStatus := st \<rparr>) = meshesHaveBuffers s"
  by (simp add: meshesHaveBuffers_def)













lemma exScene_reachable: "reachable exThree exScene"
  unfolding exScene_def by (intro reach_build reach_start)

lemma exScene_meshes: "terrainMesh exScene \<noteq> None" "baseMesh exScene \<noteq> None"
proof -
  show "terrainMesh exScene \<noteq> None"
    unfolding exScene_def by (rule build_success_terrain[OF exGrid_valid])
  show "baseMesh exScene \<noteq> None"
    unfolding exScene_def
    by (rule build_base_present[OF exGrid_valid])
       (simp_all add: getBaseThicknessValue_def noControls_def startScene_def exThree_def
          fixedBoxes_def exBox_def getX_def getY_def getZ_def)
qed


section \<open>The base plate\<close>

lemma isDouble_minus: "isDouble (- y) = isDouble y"
  unfolding isDouble_def by (rule isRep_neg)

lemma isDouble_zero: "isDouble 0"
  using isDouble_int[of 0] by simp

lemma isDouble_half:
  assumes "isDouble w" "2 powi (- 1021) \<le> \<bar>w\<bar>"
  shows "isDouble (w / 2)"
proof -
  from assms(1) obtain m e where me: "w = of_int m * 2 powi e" "\<bar>m\<bar> < 2 ^ 53"
      "- 1074 \<le> e" "e \<le> 971"
    unfolding isDouble_def isRep_def by auto
  have "e \<noteq> - 1074"
  proof
    assume e: "e = - 1074"
    have "(of_int \<bar>m\<bar> :: real) < of_int (2 ^ 53)" using me(2) by (simp only: of_int_less_iff)
    then have "of_int \<bar>m\<bar> * 2 powi e < of_int (2 ^ 53) * (2::real) powi e"
      by (intro mult_strict_right_mono) simp_all
    also have "\<dots> = 2 powi (53 + e)" by (simp add: pow2_add)
    finally have "\<bar>w\<bar> < 2 powi (- 1021)" by (simp add: me(1) abs_mult e)
    then show False using assms(2) by simp
  qed
  then have e: "- 1074 \<le> e - 1" using me(3) by simp
  have "(2::real) powi e = 2 powi (e - 1) * 2 powi 1" using pow2_add[of "e - 1" 1] by simp
  then have "w / 2 = of_int m * 2 powi (e - 1)" by (simp add: me(1))
  then show ?thesis unfolding isDouble_def isRep_def using me(2,4) e
    by (intro exI[of _ m] exI[of _ "e - 1"]) simp
qed

text \<open>The operations of the box on a size that is a double with a half that is one.\<close>

lemma half_ops:
  assumes "isDouble w" "isDouble (w / 2)"
  shows "double w = Fin w" "double (w / 2) = Fin (w / 2)" "double (- (w / 2)) = Fin (- (w / 2))"
        "double (w - w / 2) = Fin (w / 2)" "double (- w) = Fin (- w)"
proof -
  show "double w = Fin w" by (rule double_id[OF assms(1)])
  show "double (w / 2) = Fin (w / 2)" by (rule double_id[OF assms(2)])
  show "double (- (w / 2)) = Fin (- (w / 2))" using assms(2) by (intro double_id) (simp add: isDouble_minus)
  have "w - w / 2 = w / 2" by simp
  then show "double (w - w / 2) = Fin (w / 2)" using double_id[OF assms(2)] by simp
  show "double (- w) = Fin (- w)" using assms(1) by (intro double_id) (simp add: isDouble_minus)
qed

lemma box_x:
  assumes "isDouble w" "isDouble (w / 2)"
  shows "map getX (positions (BoxGeometry (Fin w) d t)) =
     (let a = float32 (w / 2); b = num_neg (float32 (w / 2))
      in [a, a, a, a, b, b, b, b, b, a, b, a, b, a, b, a, b, a, b, a, a, b, a, b])"
  by (simp add: BoxGeometry_def buildPlane_def Let_def upt_rec getX_def of_count_def num_sub_def
        positions_def Float32BufferAttribute_def half_ops[OF assms] double_zero float32_minus)

lemma box_y:
  assumes "isDouble w" "isDouble (w / 2)"
  shows "map getY (positions (BoxGeometry d (Fin w) t)) =
     (let a = float32 (w / 2); b = num_neg (float32 (w / 2))
      in [a, a, b, b, a, a, b, b, a, a, a, a, b, b, b, b, a, a, b, b, a, a, b, b])"
  by (simp add: BoxGeometry_def buildPlane_def Let_def upt_rec getY_def of_count_def num_sub_def
        positions_def Float32BufferAttribute_def half_ops[OF assms] double_zero float32_minus)

lemma box_z:
  assumes "isDouble w" "isDouble (w / 2)"
  shows "map getZ (positions (BoxGeometry d t (Fin w))) =
     (let a = float32 (w / 2); b = num_neg (float32 (w / 2))
      in [a, b, a, b, b, a, b, a, b, b, a, a, a, a, b, b, a, a, a, a, b, b, b, b])"
  by (simp add: BoxGeometry_def buildPlane_def Let_def upt_rec getZ_def of_count_def num_sub_def
        positions_def Float32BufferAttribute_def half_ops[OF assms] double_zero float32_minus)


lemma num_le_between:
  "num_le (Fin a) v \<Longrightarrow> num_le v (Fin b) \<Longrightarrow> \<exists>y. v = Fin y \<and> a \<le> y \<and> y \<le> b"
  by (cases v) (auto simp: num_le_def)

lemma double_finite_abs:
  assumes "\<bar>x\<bar> \<le> 2 powi k" "- 1074 \<le> k" "k \<le> 1023"
  shows "\<exists>y. double x = Fin y \<and> \<bar>y\<bar> \<le> 2 powi k"
proof -
  have "num_le (double (- (2 powi k))) (double x)" using assms(1) by (intro double_mono) simp
  then have "num_le (Fin (- (2 powi k))) (double x)"
    by (simp add: double_minus double_pow2[OF assms(2,3)])
  moreover have "num_le (double x) (Fin (2 powi k))"
    using double_mono[of x "2 powi k"] assms(1) by (simp add: double_pow2[OF assms(2,3)])
  ultimately obtain y where "double x = Fin y" "- (2 powi k) \<le> y" "y \<le> 2 powi k"
    using num_le_between by blast
  then show ?thesis by (auto simp: abs_le_iff)
qed

text \<open>The extreme coordinates of a list made of a value that is not negative and its opposite.\<close>

lemma extremes_of_pair:
  assumes "set xs = {float32 h, num_neg (float32 h)}" "0 \<le> h"
  shows "isMaxOf (float32 h) xs" "isMinOf (num_neg (float32 h)) xs"
proof -
  have "num_le (Fin 0) (float32 h)" using float32_mono[OF assms(2)] by (simp add: float32_zero)
  then have "num_le (num_neg (float32 h)) (float32 h) \<and> num_le (float32 h) (float32 h) \<and>
             num_le (num_neg (float32 h)) (num_neg (float32 h))"
    by (cases "float32 h") (auto simp: num_le_def)
  then show "isMaxOf (float32 h) xs" "isMinOf (num_neg (float32 h)) xs"
    unfolding isMaxOf_def isMinOf_def assms(1) by auto
qed

lemma box_extremes:
  assumes "isDouble w" "isDouble (w / 2)" "0 \<le> w"
  shows "isMaxOf (float32 (w / 2)) (map getX (positions (BoxGeometry (Fin w) d t)))"
    and "isMinOf (num_neg (float32 (w / 2))) (map getX (positions (BoxGeometry (Fin w) d t)))"
    and "isMaxOf (float32 (w / 2)) (map getY (positions (BoxGeometry d (Fin w) t)))"
    and "isMinOf (num_neg (float32 (w / 2))) (map getY (positions (BoxGeometry d (Fin w) t)))"
    and "isMaxOf (float32 (w / 2)) (map getZ (positions (BoxGeometry d t (Fin w))))"
    and "isMinOf (num_neg (float32 (w / 2))) (map getZ (positions (BoxGeometry d t (Fin w))))"
proof -
  have h: "0 \<le> w / 2" using assms(3) by simp
  have x: "set (map getX (positions (BoxGeometry (Fin w) d t))) = {float32 (w / 2), num_neg (float32 (w / 2))}"
    unfolding box_x[OF assms(1,2)] by (auto simp: Let_def)
  have y: "set (map getY (positions (BoxGeometry d (Fin w) t))) = {float32 (w / 2), num_neg (float32 (w / 2))}"
    unfolding box_y[OF assms(1,2)] by (auto simp: Let_def)
  have z: "set (map getZ (positions (BoxGeometry d t (Fin w)))) = {float32 (w / 2), num_neg (float32 (w / 2))}"
    unfolding box_z[OF assms(1,2)] by (auto simp: Let_def)
  show "isMaxOf (float32 (w / 2)) (map getX (positions (BoxGeometry (Fin w) d t)))"
    and "isMinOf (num_neg (float32 (w / 2))) (map getX (positions (BoxGeometry (Fin w) d t)))"
    by (rule extremes_of_pair[OF x h])+
  show "isMaxOf (float32 (w / 2)) (map getY (positions (BoxGeometry d (Fin w) t)))"
    and "isMinOf (num_neg (float32 (w / 2))) (map getY (positions (BoxGeometry d (Fin w) t)))"
    by (rule extremes_of_pair[OF y h])+
  show "isMaxOf (float32 (w / 2)) (map getZ (positions (BoxGeometry d t (Fin w))))"
    and "isMinOf (num_neg (float32 (w / 2))) (map getZ (positions (BoxGeometry d t (Fin w))))"
    by (rule extremes_of_pair[OF z h])+
qed

text \<open>The width of the plate: a double, with a half that is one.\<close>

lemma plate_width:
  assumes "a \<le> b" "b - a \<le> 2 powi 1023"
  shows "\<exists>w. Math_max (double (b - a)) (double (1 / 1000000)) = Fin w \<and>
             isDouble w \<and> isDouble (w / 2) \<and> 0 \<le> w"
proof -
  let ?e = "4722366482869645 / 4722366482869645213696 :: real"
  have "0 \<le> b - a" using assms(1) by simp
  from double_finite[OF this assms(2)] obtain \<sigma> where s: "double (b - a) = Fin \<sigma>" "0 \<le> \<sigma>"
    by auto
  have de: "isDouble ?e" by (rule double_rep[OF double_1e6])
  have ds: "isDouble \<sigma>" by (rule double_rep[OF s(1)])
  have m: "Math_max (double (b - a)) (double (1 / 1000000)) = Fin (max \<sigma> ?e)"
    by (simp add: s(1) double_1e6 Math_max_Fin)
  have dm: "isDouble (max \<sigma> ?e)" using de ds by (simp add: max_def)
  have "2 powi (- 1021) \<le> ?e" by simp
  then have "2 powi (- 1021) \<le> \<bar>max \<sigma> ?e\<bar>" by (simp add: max_def)
  from isDouble_half[OF dm this] dm m show ?thesis by (intro exI[of _ "max \<sigma> ?e"]) simp
qed


lemma double_1_10: "double (1 / 10) = Fin (3602879701896397 / 36028797018963968)"
  using double_eqI[of "- 4" "1 / 10" "1 / 72057594037927936" 7205759403792794] by simp

text \<open>
  Against claim C5 as stated: the terrain built from the grid \<open>[[0, 10], [10, 0]]\<close>, whose
  bounding box has its minimum at height 0, and the thickness \<open>0.1\<close>. The plate is placed
  at \<open>-0.05\<close>, and its highest vertices, stored in single precision, are at
  \<open>0.0500000007450580596923828125\<close> above that: the top face is \<open>7.45e-10\<close> above the
  bounding box's minimum.
\<close>

theorem base_plate_flush_counterexample:
  "reachable exThree exScene \<and> terrainMesh exScene \<noteq> None \<and>
   double (1 / 10) = Fin (3602879701896397 / 36028797018963968) \<and>
   getZ (bmin (setFromObject exThree (terrainGroupScale exScene) (terrainMesh exScene))) = Fin 0 \<and>
   baseMesh (rebuildBase exThree (double (1 / 10)) exScene) =
     Some \<lparr> geometry = BoxGeometry (Fin 1) (Fin 1) (double (1 / 10)),
            position = (Fin 0, Fin 0, Fin (- (3602879701896397 / 72057594037927936))) \<rparr> \<and>
   isMaxOf (Fin (13421773 / 268435456))
     (map getZ (positions (BoxGeometry (Fin 1) (Fin 1) (double (1 / 10))))) \<and>
   - (3602879701896397 / 72057594037927936) + 13421773 / 268435456 \<noteq> (0::real)"
proof -
  let ?t = "3602879701896397 / 36028797018963968 :: real"
  have dt: "isDouble ?t" by (rule double_rep[OF double_1_10])
  have "2 powi (- 1021) \<le> \<bar>?t\<bar>" by simp
  from isDouble_half[OF dt this] have dh: "isDouble (?t / 2)" .
  have half: "double (?t / 2) = Fin (?t / 2)" by (rule double_id[OF dh])
  have mhalf: "double (- (?t / 2)) = Fin (- (?t / 2))"
    using dh by (intro double_id) (simp add: isDouble_minus)
  have "float32 (3602879701896397 / 72057594037927936) = Fin (of_int 13421773 * (1 / 268435456))"
    by (rule float32_eqI[where E = "- 5"]) simp_all
  then have f: "float32 (3602879701896397 / 72057594037927936) = Fin (13421773 / 268435456)"
    by simp
  have box: "setFromObject exThree sc m = exBox" for sc m
    by (simp add: exThree_def fixedBoxes_def)
  have z0: "getZ (bmin (setFromObject exThree (terrainGroupScale exScene) (terrainMesh exScene))) = Fin 0"
    by (simp add: box exBox_def getZ_def)
  have one: "double (1 / 2 + 1 / 2) = Fin 1" "double (- (1 / 2) + 1 / 2) = Fin 0"
    by (simp_all add: double_zero)
  have built: "baseMesh (rebuildBase exThree (double (1 / 10)) exScene) =
     Some \<lparr> geometry = BoxGeometry (Fin 1) (Fin 1) (double (1 / 10)),
            position = (Fin 0, Fin 0, Fin (- (3602879701896397 / 72057594037927936))) \<rparr>"
    using exScene_meshes(1) half mhalf
    by (simp add: rebuildBase_def Let_def double_1_10 num_le_Fin box exBox_def getX_def getY_def
          getZ_def getSize_def getCenter_def isEmpty_def num_sub_Fin double_1e6 Math_max_Fin
          double_zero)
  have top: "isMaxOf (Fin (13421773 / 268435456))
     (map getZ (positions (BoxGeometry (Fin 1) (Fin 1) (double (1 / 10)))))"
    using box_extremes(5)[OF dt dh, of "Fin 1" "Fin 1"] by (simp add: double_1_10 f)
  from exScene_reachable exScene_meshes(1) double_1_10 z0 built top show ?thesis by simp
qed


text \<open>
  Claim C5, as amended. Let the terrain be loaded, the thickness a double between
  \<open>2 ^ -1021\<close> and \<open>2 ^ 127\<close>, and the world-space bounding box of the terrain group finite
  and not empty, from \<open>(x0, y0, z0)\<close> to \<open>(x1, y1, z1)\<close>, with extents the doubles can
  hold, whatever the scale of the group. Then \<open>rebuildBase\<close> builds a plate that is a box
  of width \<open>max(x1 - x0, 1e-6)\<close>, depth \<open>max(y1 - y0, 1e-6)\<close> and height \<open>thickness\<close>,
  placed at \<open>((x0 + x1) * 0.5, (y0 + y1) * 0.5, z0 - thickness / 2)\<close>, all computed in
  doubles. Its highest vertices are stored at \<open>thickness / 2\<close> rounded to single precision,
  so the top face is at \<open>z0\<close> within the tolerance
  \<open>thickness * 2 ^ -24 + |z0| * 2 ^ -53 + 2 ^ -149\<close>, and not always at \<open>z0\<close> exactly.
  Along x and y the vertices of the plate reach as far on one side of its position as on
  the other: the footprint is centred on the centre of the bounding box as computed.
\<close>

theorem base_plate_flush:
  assumes terrain: "terrainMesh s \<noteq> None"
      and th: "isDouble t" "2 powi (- 1021) \<le> t" "t \<le> 2 powi 127"
      and bb: "setFromObject env (terrainGroupScale s) (terrainMesh s) =
                 \<lparr> bmin = (Fin x0, Fin y0, Fin z0), bmax = (Fin x1, Fin y1, Fin z1) \<rparr>"
      and box: "x0 \<le> x1" "y0 \<le> y1" "z0 \<le> z1"
      and ext: "x1 - x0 \<le> 2 powi 1023" "y1 - y0 \<le> 2 powi 1023" "\<bar>z0\<bar> \<le> 2 powi 1022"
  shows "let width = Math_max (num_sub (Fin x1) (Fin x0)) (double (1 / 1000000));
             depth = Math_max (num_sub (Fin y1) (Fin y0)) (double (1 / 1000000))
         in \<exists>plate pz lz.
              baseMesh (rebuildBase env (Fin t) s) = Some plate \<and>
              geometry plate = BoxGeometry width depth (Fin t) \<and>
              position plate =
                (num_mul (num_add (Fin x0) (Fin x1)) (Fin (1 / 2)),
                 num_mul (num_add (Fin y0) (Fin y1)) (Fin (1 / 2)),
                 num_sub (Fin z0) (num_div (Fin t) (Fin 2))) \<and>
              getZ (position plate) = Fin pz \<and>
              isMaxOf (Fin lz) (map getZ (positions (geometry plate))) \<and>
              \<bar>pz + lz - z0\<bar> \<le> t * 2 powi (- 24) + \<bar>z0\<bar> * 2 powi (- 53) + 2 powi (- 149) \<and>
              isMaxOf (Math_fround (num_div width (Fin 2))) (map getX (positions (geometry plate))) \<and>
              isMinOf (num_neg (Math_fround (num_div width (Fin 2))))
                (map getX (positions (geometry plate))) \<and>
              isMaxOf (Math_fround (num_div depth (Fin 2))) (map getY (positions (geometry plate))) \<and>
              isMinOf (num_neg (Math_fround (num_div depth (Fin 2))))
                (map getY (positions (geometry plate)))"
proof -
  let ?width = "Math_max (num_sub (Fin x1) (Fin x0)) (double (1 / 1000000))"
  let ?depth = "Math_max (num_sub (Fin y1) (Fin y0)) (double (1 / 1000000))"
  let ?pos = "(num_mul (num_add (Fin x0) (Fin x1)) (Fin (1 / 2)),
               num_mul (num_add (Fin y0) (Fin y1)) (Fin (1 / 2)),
               num_sub (Fin z0) (num_div (Fin t) (Fin 2)))"
  let ?plate = "\<lparr> geometry = BoxGeometry ?width ?depth (Fin t), position = ?pos \<rparr>"
  have tpos: "0 < t" using th(2) pow2_pos[of "- 1021"] by linarith
  have built: "baseMesh (rebuildBase env (Fin t) s) = Some ?plate"
    using terrain tpos box
    by (simp add: rebuildBase_def Let_def num_le_Fin bb getX_def getY_def getZ_def getSize_def
          getCenter_def isEmpty_def)
  from plate_width[OF box(1) ext(1)] obtain w where
    w: "?width = Fin w" "isDouble w" "isDouble (w / 2)" "0 \<le> w" by (auto simp: num_sub_Fin)
  from plate_width[OF box(2) ext(2)] obtain d where
    d: "?depth = Fin d" "isDouble d" "isDouble (d / 2)" "0 \<le> d" by (auto simp: num_sub_Fin)
  have "2 powi (- 1021) \<le> \<bar>t\<bar>" using th(2) by simp
  from isDouble_half[OF th(1) this] have dh: "isDouble (t / 2)" .
  have half: "num_div (Fin t) (Fin 2) = Fin (t / 2)" by (simp add: double_id[OF dh])
  have "\<bar>z0 - t / 2\<bar> \<le> 2 powi 1022 + 2 powi 127" using ext(3) th(3) tpos by (simp add: abs_le_iff)
  then have "\<bar>z0 - t / 2\<bar> \<le> 2 powi 1023" by simp
  from double_finite_abs[OF this] obtain pz where pz: "double (z0 - t / 2) = Fin pz" by auto
  have "t / 2 \<le> 2 powi 126" using th(3) by simp
  from float32_finite[OF _ this] tpos obtain lz where
    lz: "float32 (t / 2) = Fin lz" "0 \<le> lz" by auto
  have zpos: "getZ ?pos = Fin pz" by (simp add: getZ_def double_id[OF dh] num_sub_Fin pz)
  have top: "isMaxOf (Fin lz) (map getZ (positions (BoxGeometry ?width ?depth (Fin t))))"
    using box_extremes(5)[OF th(1) dh, of ?width ?depth] tpos by (simp add: lz(1))
  have e1: "\<bar>pz - (z0 - t / 2)\<bar> \<le> \<bar>z0 - t / 2\<bar> * (1 / 2 ^ 53) + 1 / 2 ^ 1075"
    using double_err[OF pz] by simp
  have e2: "\<bar>lz - t / 2\<bar> \<le> t / 2 * (1 / 2 ^ 24) + 1 / 2 ^ 150"
    using float32_err[OF lz(1)] tpos by simp
  have e3: "\<bar>z0 - t / 2\<bar> \<le> \<bar>z0\<bar> + t / 2" using tpos by linarith
  have "\<bar>z0 - t / 2\<bar> * (1 / 2 ^ 53) \<le> (\<bar>z0\<bar> + t / 2) * (1 / 2 ^ 53)"
    using e3 by (intro mult_right_mono) simp_all
  then have e4: "\<bar>z0 - t / 2\<bar> * (1 / 2 ^ 53) \<le> \<bar>z0\<bar> * (1 / 2 ^ 53) + t / 2 * (1 / 2 ^ 53)"
    by (simp add: algebra_simps)
  have tiny: "(1::real) / 2 ^ 1075 + 1 / 2 ^ 150 \<le> 1 / 2 ^ 149" by simp
  have mid: "t / 2 * (1 / 2 ^ 53) + t / 2 * (1 / 2 ^ 24) \<le> t * (1 / 2 ^ 24)" using tpos by simp
  have "\<bar>pz + lz - z0\<bar> \<le> \<bar>pz - (z0 - t / 2)\<bar> + \<bar>lz - t / 2\<bar>" by linarith
  also have "\<dots> \<le> t * (1 / 2 ^ 24) + \<bar>z0\<bar> * (1 / 2 ^ 53) + 1 / 2 ^ 149"
    using e1 e2 e4 tiny mid by linarith
  finally have tol: "\<bar>pz + lz - z0\<bar> \<le> t * 2 powi (- 24) + \<bar>z0\<bar> * 2 powi (- 53) + 2 powi (- 149)"
    by simp
  have wh: "Math_fround (num_div ?width (Fin 2)) = float32 (w / 2)"
    by (simp add: w(1) double_id[OF w(3)])
  have dph: "Math_fround (num_div ?depth (Fin 2)) = float32 (d / 2)"
    by (simp add: d(1) double_id[OF d(3)])
  have xs: "isMaxOf (Math_fround (num_div ?width (Fin 2)))
              (map getX (positions (BoxGeometry ?width ?depth (Fin t))))"
           "isMinOf (num_neg (Math_fround (num_div ?width (Fin 2))))
              (map getX (positions (BoxGeometry ?width ?depth (Fin t))))"
    unfolding wh unfolding w(1) by (rule box_extremes(1,2)[OF w(2,3,4)])+
  have ys: "isMaxOf (Math_fround (num_div ?depth (Fin 2)))
              (map getY (positions (BoxGeometry ?width ?depth (Fin t))))"
           "isMinOf (num_neg (Math_fround (num_div ?depth (Fin 2))))
              (map getY (positions (BoxGeometry ?width ?depth (Fin t))))"
    unfolding dph unfolding d(1) by (rule box_extremes(3,4)[OF d(2,3,4)])+
  have "baseMesh (rebuildBase env (Fin t) s) = Some ?plate \<and>
        geometry ?plate = BoxGeometry ?width ?depth (Fin t) \<and>
        position ?plate = ?pos \<and>
        getZ (position ?plate) = Fin pz \<and>
        isMaxOf (Fin lz) (map getZ (positions (geometry ?plate))) \<and>
        \<bar>pz + lz - z0\<bar> \<le> t * 2 powi (- 24) + \<bar>z0\<bar> * 2 powi (- 53) + 2 powi (- 149) \<and>
        isMaxOf (Math_fround (num_div ?width (Fin 2))) (map getX (positions (geometry ?plate))) \<and>
        isMinOf (num_neg (Math_fround (num_div ?width (Fin 2))))
          (map getX (positions (geometry ?plate))) \<and>
        isMaxOf (Math_fround (num_div ?depth (Fin 2))) (map getY (positions (geometry ?plate))) \<and>
        isMinOf (num_neg (Math_fround (num_div ?depth (Fin 2))))
          (map getY (positions (geometry ?plate)))"
    using built zpos top tol xs ys by simp
  then show ?thesis unfolding Let_def by blast
qed


theorem base_plate_flush_witness:
  "terrainMesh exScene \<noteq> None \<and> isDouble 5 \<and>
   setFromObject offThree (terrainGroupScale exScene) (terrainMesh exScene) =
     \<lparr> bmin = (Fin 1, Fin 2, Fin 3), bmax = (Fin 3, Fin 6, Fin 4) \<rparr> \<and>
   (let width = Math_max (num_sub (Fin 3) (Fin 1)) (double (1 / 1000000));
        depth = Math_max (num_sub (Fin 6) (Fin 2)) (double (1 / 1000000))
    in \<exists>plate pz lz.
         baseMesh (rebuildBase offThree (Fin 5) exScene) = Some plate \<and>
         geometry plate = BoxGeometry width depth (Fin 5) \<and>
         position plate =
           (num_mul (num_add (Fin 1) (Fin 3)) (Fin (1 / 2)),
            num_mul (num_add (Fin 2) (Fin 6)) (Fin (1 / 2)),
            num_sub (Fin 3) (num_div (Fin 5) (Fin 2))) \<and>
         getZ (position plate) = Fin pz \<and>
         isMaxOf (Fin lz) (map getZ (positions (geometry plate))) \<and>
         \<bar>pz + lz - 3\<bar> \<le> 5 * 2 powi (- 24) + \<bar>3\<bar> * 2 powi (- 53) + 2 powi (- 149) \<and>
         isMaxOf (Math_fround (num_div width (Fin 2))) (map getX (positions (geometry plate))) \<and>
         isMinOf (num_neg (Math_fround (num_div width (Fin 2))))
           (map getX (positions (geometry plate))) \<and>
         isMaxOf (Math_fround (num_div depth (Fin 2))) (map getY (positions (geometry plate))) \<and>
         isMinOf (num_neg (Math_fround (num_div depth (Fin 2))))
           (map getY (positions (geometry plate)))) \<and>
   baseMesh (rebuildBase offThree (Fin 5) exScene) =
     Some \<lparr> geometry = BoxGeometry (Fin 2) (Fin 4) (Fin 5),
            position = (Fin 2, Fin 4, Fin (1 / 2)) \<rparr>"
proof -
  have h1: "terrainMesh exScene \<noteq> None" by (rule exScene_meshes(1))
  have d5: "isDouble 5" using isDouble_int[of 5] by simp
  have r: "2 powi (- 1021) \<le> (5::real)" "(5::real) \<le> 2 powi 127" by simp_all
  have bb: "setFromObject offThree (terrainGroupScale exScene) (terrainMesh exScene) =
     \<lparr> bmin = (Fin 1, Fin 2, Fin 3), bmax = (Fin 3, Fin 6, Fin 4) \<rparr>"
    by (simp add: offThree_def fixedBoxes_def offBox_def)
  have b: "(1::real) \<le> 3" "(2::real) \<le> 6" "(3::real) \<le> 4"
          "(3::real) - 1 \<le> 2 powi 1023" "(6::real) - 2 \<le> 2 powi 1023" "\<bar>3::real\<bar> \<le> 2 powi 1022"
    by simp_all
  note th = base_plate_flush[OF h1 d5 r bb b]
  have "2 powi (- 1021) \<le> \<bar>5::real\<bar>" by simp
  from isDouble_half[OF d5 this] have h5: "double (5 / 2) = Fin (5 / 2)" by (rule double_id)
  have "2 powi (- 1021) \<le> \<bar>1::real\<bar>" by simp
  from isDouble_half[OF isDouble_int[of 1, simplified] this]
  have h12: "double (1 / 2) = Fin (1 / 2)" by (rule double_id)
  have built: "baseMesh (rebuildBase offThree (Fin 5) exScene) =
     Some \<lparr> geometry = BoxGeometry (Fin 2) (Fin 4) (Fin 5),
            position = (Fin 2, Fin 4, Fin (1 / 2)) \<rparr>"
    using h1
    by (simp add: rebuildBase_def Let_def num_le_Fin bb getX_def getY_def getZ_def getSize_def
          getCenter_def isEmpty_def num_sub_Fin double_1e6 Math_max_Fin h5 h12)
  from h1 d5 bb th built show ?thesis by blast
qed

end
